theory Spec2Isabelle
  imports Main "HOL-Library.Product_Lexorder"
begin

unbundle bit_operations_syntax

section \<open>Python formatting primitives used by the content-stream writer\<close>

text \<open>
  Byte strings and the ASCII text that is encoded into them are both modelled as
  \<open>string\<close>. \<open>BitStream.append\<close> is list append, so every render
  function below returns the bytes it appends to the buffer it is handed.
\<close>

definition nl :: char where
  "nl = CHR 0x0A"

definition digit_char :: "nat \<Rightarrow> char" where
  "digit_char d = (''0123456789abcdef'' ! d)"

text \<open>\<open>format(n, 'x')\<close> for a non-negative integer: lowercase, no leading zeros.\<close>

fun hex_of_nat :: "nat \<Rightarrow> string" where
  "hex_of_nat n = (if n < 16 then [digit_char n] else hex_of_nat (n div 16) @ [digit_char (n mod 16)])"

declare hex_of_nat.simps [simp del]

text \<open>\<open>str(n)\<close> for a non-negative integer.\<close>

fun dec_of_nat :: "nat \<Rightarrow> string" where
  "dec_of_nat n = (if n < 10 then [digit_char n] else dec_of_nat (n div 10) @ [digit_char (n mod 10)])"

declare dec_of_nat.simps [simp del]

definition zfill :: "nat \<Rightarrow> string \<Rightarrow> string" where
  "zfill w s = replicate (w - length s) (CHR ''0'') @ s"

text \<open>
  \<open>format(i, '0{w}x')\<close>: \<open>w\<close> is a minimum width, the padding is sign-aware and
  nothing is ever cut off.
\<close>

definition py_format_0x :: "nat \<Rightarrow> int \<Rightarrow> string" where
  "py_format_0x w i =
     (if i < 0 then CHR ''-'' # zfill (w - 1) (hex_of_nat (nat (- i)))
      else zfill w (hex_of_nat (nat i)))"

text \<open>\<open>str.upper\<close> on ASCII text: only the letters a to z change.\<close>

definition upper_char :: "char \<Rightarrow> char" where
  "upper_char c =
     (case map_of (zip ''abcdefghijklmnopqrstuvwxyz'' ''ABCDEFGHIJKLMNOPQRSTUVWXYZ'') c of
        None \<Rightarrow> c
      | Some u \<Rightarrow> u)"

definition py_upper :: "string \<Rightarrow> string" where
  "py_upper s = map upper_char s"

text \<open>
  A finite Python float is a sign and a dyadic magnitude \<open>mantissa * 2 ^ exponent\<close>
  (zero has a sign too); the positions and sizes of the document tree are kept in
  that form.
\<close>

datatype py_float = PyFloat (negative: bool) (mantissa: nat) (exponent: int)

definition py_neg :: "py_float \<Rightarrow> py_float" where
  "py_neg v = PyFloat (\<not> negative v) (mantissa v) (exponent v)"

text \<open>The magnitude times \<open>10 ^ 6\<close>, rounded half to even.\<close>

definition round_micro :: "py_float \<Rightarrow> int" where
  "round_micro v =
     (let a = int (mantissa v) * 1000000
      in if 0 \<le> exponent v then a * 2 ^ nat (exponent v)
         else (let d = 2 ^ nat (- exponent v); f = a div d; r = a mod d
               in if 2 * r < d then f else if d < 2 * r then f + 1
                  else if even f then f else f + 1))"

text \<open>\<open>format(v, 'f')\<close>: sign, integer part, six correctly rounded decimals.\<close>

definition fmt_f :: "py_float \<Rightarrow> string" where
  "fmt_f v =
     (let m = nat (round_micro v)
      in (if negative v then ''-'' else []) @ dec_of_nat (m div 1000000) @ ''.''
           @ zfill 6 (dec_of_nat (m mod 1000000)))"

text \<open>\<open>d.get(k, default)\<close> where the key itself may be \<open>None\<close> (never a key here).\<close>

definition get_or :: "('k \<rightharpoonup> 'v) \<Rightarrow> 'k option \<Rightarrow> 'v \<Rightarrow> 'v" where
  "get_or m k d = (case k of None \<Rightarrow> d | Some i \<Rightarrow> (case m i of None \<Rightarrow> d | Some v \<Rightarrow> v))"

section \<open>Document tree and render context\<close>

text \<open>
  The IL classes are not part of the sources; the records carry the fields that
  \<open>pdf_creater.py\<close> reads. XObject ids are integers, font ids are strings,
  encoding lengths are byte counts.
\<close>

record il_box =
  box_x :: py_float
  box_y :: py_float
  box_x2 :: py_float
  box_y2 :: py_float

record il_graphic_state =
  passthrough_per_char_instruction :: "string option"

record il_pdf_style =
  font_id :: string
  font_size :: py_float
  graphic_state :: "il_graphic_state option"

text \<open>
  \<open>getattr(o, "render_order", d)\<close> distinguishes an object without the attribute from
  one whose attribute is \<open>None\<close>.
\<close>

datatype 'a attr = NoAttr | Attr 'a

record il_pdf_character =
  char_unicode :: string
  pdf_character_id :: "int option"
  pdf_style :: il_pdf_style
  vertical :: bool
  box :: il_box
  char_xobj_id :: "int option"
  char_render_order :: "int option attr"

record render_context =
  available_font_list :: "string set"
  page_encoding_length_map :: "string \<rightharpoonup> nat"
  all_encoding_length_map :: "string \<rightharpoonup> nat"
  xobj_available_fonts :: "int \<rightharpoonup> string set"
  xobj_encoding_length_map :: "int \<rightharpoonup> (string \<rightharpoonup> nat)"
  check_font_exists :: bool

section \<open>Character render unit\<close>

definition render_graphic_state :: "il_graphic_state option \<Rightarrow> string" where
  "render_graphic_state gs =
     (case gs of
        None \<Rightarrow> []
      | Some g \<Rightarrow>
          (case passthrough_per_char_instruction g of
             None \<Rightarrow> []
           | Some s \<Rightarrow> if s = [] then [] else s @ '' '' @ [nl]))"

text \<open>The available-font set the strict check consults for a unit.\<close>

definition resolved_available_fonts :: "render_context \<Rightarrow> int option \<Rightarrow> string set" where
  "resolved_available_fonts ctx xid = get_or (xobj_available_fonts ctx) xid (available_font_list ctx)"

text \<open>
  \<open>encoding_length_map.get(font_id, context.all_encoding_length_map.get(font_id))\<close>
  with \<open>encoding_length_map\<close> chosen by the unit's XObject id.
\<close>

definition resolved_encoding_length :: "render_context \<Rightarrow> int option \<Rightarrow> string \<Rightarrow> nat option" where
  "resolved_encoding_length ctx xid fid =
     (let encoding_length_map = get_or (xobj_encoding_length_map ctx) xid (page_encoding_length_map ctx)
      in case encoding_length_map fid of
           Some n \<Rightarrow> Some n
         | None \<Rightarrow> all_encoding_length_map ctx fid)"

definition text_matrix_op :: "il_pdf_character \<Rightarrow> string" where
  "text_matrix_op c =
     (let char_size = font_size (pdf_style c); fid = font_id (pdf_style c)
      in if vertical c
         then ''BT /'' @ fid @ '' '' @ fmt_f char_size @ '' Tf 0 1 -1 0 ''
                @ fmt_f (box_x2 (box c)) @ '' '' @ fmt_f (box_y (box c)) @ '' Tm ''
         else ''BT /'' @ fid @ '' '' @ fmt_f char_size @ '' Tf 1 0 0 1 ''
                @ fmt_f (box_x (box c)) @ '' '' @ fmt_f (box_y (box c)) @ '' Tm '')"

definition glyph_token :: "nat \<Rightarrow> int \<Rightarrow> string" where
  "glyph_token encoding_length cid = py_upper (''<'' @ py_format_0x (encoding_length * 2) cid @ ''>'')"

text \<open>\<open>CharacterRenderUnit.render\<close>: the bytes appended to \<open>draw_op\<close>.\<close>

definition character_render :: "render_context \<Rightarrow> il_pdf_character \<Rightarrow> string" where
  "character_render ctx c =
     (case pdf_character_id c of
        None \<Rightarrow> []
      | Some cid \<Rightarrow>
          if char_unicode c = [nl] then []
          else if check_font_exists ctx
                  \<and> font_id (pdf_style c) \<notin> resolved_available_fonts ctx (char_xobj_id c)
          then []
          else
            (let opened = ''q '' @ render_graphic_state (graphic_state (pdf_style c)) @ text_matrix_op c
             in case resolved_encoding_length ctx (char_xobj_id c) (font_id (pdf_style c)) of
                  None \<Rightarrow> opened
                | Some encoding_length \<Rightarrow>
                    opened @ glyph_token encoding_length cid @ '' Tj ET Q '' @ [nl]))"

section \<open>Form render unit\<close>

record il_pdf_form =
  form_xobj_id :: "int option"
  form_render_order :: "int option attr"
  relocation_transform :: "py_float list"
  pdf_matrix :: "py_float list"
  form_passthrough_per_char_instruction :: string
  do_args :: "string option"

text \<open>
  \<open>FormRenderUnit.render\<close>. \<open>matrix_to_bytes\<close> lives outside the sources and is a
  parameter; on well-typed transform data the guarded conversion does not raise.
  \<open>do_args\<close> is \<open>Some\<close> exactly when the form carries an XObject sub-form.
\<close>

definition form_render :: "(py_float list \<Rightarrow> string) \<Rightarrow> il_pdf_form \<Rightarrow> string" where
  "form_render matrix_to_bytes form =
     ''q ''
     @ (if relocation_transform form \<noteq> [] \<and> length (relocation_transform form) = 6
        then matrix_to_bytes (relocation_transform form) else [])
     @ (matrix_to_bytes (pdf_matrix form) @ '' '' @ form_passthrough_per_char_instruction form @ '' '')
     @ (case do_args form of None \<Rightarrow> [] | Some a \<Rightarrow> '' /'' @ a @ '' Do '')
     @ '' Q'' @ [nl]"

section \<open>Render units\<close>

text \<open>
  The two unit classes the collector builds. The constructor arguments are the payload,
  \<open>render_order\<close> and \<open>sub_render_order\<close> as stored by \<open>RenderUnit.__init__\<close>.
\<close>

datatype render_unit =
    CharacterRenderUnit il_pdf_character int int
  | FormRenderUnit il_pdf_form int int

definition order_or_max :: "int option \<Rightarrow> int" where
  "order_or_max v = (case v of None \<Rightarrow> 9999999999999999 | Some n \<Rightarrow> n)"

definition new_character_unit :: "il_pdf_character \<Rightarrow> int option \<Rightarrow> int option \<Rightarrow> render_unit" where
  "new_character_unit c render_order sub_render_order =
     CharacterRenderUnit c (order_or_max render_order) (order_or_max sub_render_order)"

definition new_form_unit :: "il_pdf_form \<Rightarrow> int option \<Rightarrow> int option \<Rightarrow> render_unit" where
  "new_form_unit f render_order sub_render_order =
     FormRenderUnit f (order_or_max render_order) (order_or_max sub_render_order)"

fun unit_xobj_id :: "render_unit \<Rightarrow> int option" where
  "unit_xobj_id (CharacterRenderUnit c _ _) = char_xobj_id c"
| "unit_xobj_id (FormRenderUnit f _ _) = form_xobj_id f"

fun get_sort_key :: "render_unit \<Rightarrow> int \<times> int" where
  "get_sort_key (CharacterRenderUnit _ ro sro) = (ro, sro)"
| "get_sort_key (FormRenderUnit _ ro sro) = (ro, sro)"

fun render :: "(py_float list \<Rightarrow> string) \<Rightarrow> render_context \<Rightarrow> render_unit \<Rightarrow> string" where
  "render matrix_to_bytes ctx (CharacterRenderUnit c _ _) = character_render ctx c"
| "render matrix_to_bytes ctx (FormRenderUnit f _ _) = form_render matrix_to_bytes f"

section \<open>Unit collector\<close>

record il_pdf_formula =
  formula_pdf_character :: "il_pdf_character list"
  formula_pdf_form :: "il_pdf_form list"

record il_composition =
  comp_pdf_character :: "il_pdf_character option"
  comp_pdf_formula :: "il_pdf_formula option"

record il_pdf_paragraph =
  pdf_paragraph_composition :: "il_composition list"

record il_pdf_font =
  pf_font_id :: string
  encoding_length :: nat

record il_pdf_xobject =
  xobj_id :: int
  xref_id :: nat
  base_operations :: string
  xobj_pdf_font :: "il_pdf_font list"

record il_page =
  cropbox :: il_box
  pdf_character :: "il_pdf_character list"
  pdf_paragraph :: "il_pdf_paragraph list"
  pdf_form :: "il_pdf_form list"
  pdf_xobject :: "il_pdf_xobject list"
  pdf_font :: "il_pdf_font list"

text \<open>
  The configuration fields the creator reads; \<open>input_file_stem\<close> is
  \<open>Path(config.input_file).stem\<close>.
\<close>

record translation_config =
  input_file_stem :: string
  debug :: bool
  lang_out :: string
  skip_form_render :: bool
  skip_clean :: bool
  no_mono :: bool

definition getattr_or :: "'a attr \<Rightarrow> 'a \<Rightarrow> 'a" where
  "getattr_or a d = (case a of NoAttr \<Rightarrow> d | Attr v \<Rightarrow> v)"

definition composition_chars :: "il_composition \<Rightarrow> il_pdf_character list" where
  "composition_chars composition =
     (case comp_pdf_character composition of
        Some c \<Rightarrow> [c]
      | None \<Rightarrow>
          (case comp_pdf_formula composition of
             Some f \<Rightarrow> formula_pdf_character f
           | None \<Rightarrow> []))"

text \<open>
  \<open>PDFCreater.render_paragraph_to_char\<close>; the configuration is the one stored in the
  creator object (\<open>self.translation_config\<close>).
\<close>

definition render_paragraph_to_char :: "translation_config \<Rightarrow> il_pdf_paragraph \<Rightarrow> il_pdf_character list" where
  "render_paragraph_to_char self_config paragraph =
     (let chars = concat (map composition_chars (pdf_paragraph_composition paragraph))
      in if lang_out self_config = ''ar'' then rev chars else chars)"

definition paragraph_forms :: "il_pdf_paragraph \<Rightarrow> il_pdf_form list" where
  "paragraph_forms p =
     concat (map (\<lambda>comp. case comp_pdf_formula comp of None \<Rightarrow> [] | Some f \<Rightarrow> formula_pdf_form f)
                 (pdf_paragraph_composition p))"

text \<open>
  \<open>PDFCreater.create_render_units_for_page\<close>: \<open>self_config\<close> is the creator's own
  configuration, \<open>translation_config\<close> the argument of the call.
\<close>

definition create_render_units_for_page ::
    "translation_config \<Rightarrow> il_page \<Rightarrow> translation_config \<Rightarrow> render_unit list" where
  "create_render_units_for_page self_config page translation_config =
     (let chars = pdf_character page @ concat (map (render_paragraph_to_char self_config) (pdf_paragraph page));
          char_units = map (\<lambda>(i, c). new_character_unit c (getattr_or (char_render_order c) (Some 100)) (Some (int i)))
                           (enumerate 0 chars)
      in if \<not> skip_form_render translation_config
         then (let all_forms = pdf_form page @ concat (map paragraph_forms (pdf_paragraph page))
               in char_units
                  @ map (\<lambda>(i, f). new_form_unit f (getattr_or (form_render_order f) (Some 50)) (Some (int i)))
                        (enumerate 0 all_forms))
         else char_units)"

section \<open>Stream assembler\<close>

text \<open>
  The page buffer and the per-XObject buffers. \<open>xobj_draw_ops.get(unit.xobj_id, page_op)\<close>
  picks the buffer the unit appends to.
\<close>

type_synonym buffers = "string \<times> (int \<rightharpoonup> string)"

definition append_routed :: "int option \<Rightarrow> string \<Rightarrow> buffers \<Rightarrow> buffers" where
  "append_routed xid bytes bufs =
     (case bufs of (page_op, xobj_draw_ops) \<Rightarrow>
        (case xid of
           None \<Rightarrow> (page_op @ bytes, xobj_draw_ops)
         | Some i \<Rightarrow>
             (case xobj_draw_ops i of
                None \<Rightarrow> (page_op @ bytes, xobj_draw_ops)
              | Some b \<Rightarrow> (page_op, xobj_draw_ops(i \<mapsto> b @ bytes)))))"

definition render_units_to_stream ::
    "(py_float list \<Rightarrow> string) \<Rightarrow> render_unit list \<Rightarrow> render_context \<Rightarrow> string \<Rightarrow> (int \<rightharpoonup> string) \<Rightarrow> buffers" where
  "render_units_to_stream matrix_to_bytes render_units ctx page_op xobj_draw_ops =
     foldl (\<lambda>bufs unit. append_routed (unit_xobj_id unit) (render matrix_to_bytes ctx unit) bufs)
           (page_op, xobj_draw_ops)
           (sort_key get_sort_key render_units)"

text \<open>
  A unit is written to the page buffer when it has no XObject id or when its id is not
  a key of the per-XObject buffers.
\<close>

definition routes_to_page :: "(int \<rightharpoonup> string) \<Rightarrow> render_unit \<Rightarrow> bool" where
  "routes_to_page xobj_draw_ops u =
     (case unit_xobj_id u of None \<Rightarrow> True | Some i \<Rightarrow> xobj_draw_ops i = None)"

text \<open>
  The buffer map \<open>update_page_content_stream\<close> builds from the page's XObjects;
  \<open>zstd_decompress\<close> is a parameter.
\<close>

definition initial_xobj_draw_ops :: "(string \<Rightarrow> string) \<Rightarrow> il_pdf_xobject list \<Rightarrow> (int \<rightharpoonup> string)" where
  "initial_xobj_draw_ops zstd_decompress xs =
     foldl (\<lambda>m x. m(xobj_id x \<mapsto> zstd_decompress (base_operations x))) Map.empty xs"

definition font_map :: "il_pdf_font list \<Rightarrow> (string \<rightharpoonup> nat)" where
  "font_map fs = foldl (\<lambda>m f. m(pf_font_id f \<mapsto> encoding_length f)) Map.empty fs"

text \<open>
  The render context of \<open>update_page_content_stream\<close>. \<open>avail\<close> and \<open>xobj_fonts\<close>
  are what the resource resolver reads from the PDF for the page and for an XObject
  reference. The source keeps one dictionary \<open>x_cmap\<close> for both the per-XObject maps
  (keyed by XObject id) and the copy of the page map (keyed by font id); looked up by
  a font id it is the page map, looked up by an XObject id it is the per-XObject map.
\<close>

definition page_render_context ::
    "bool \<Rightarrow> string set \<Rightarrow> (nat \<Rightarrow> string set) \<Rightarrow> il_page \<Rightarrow> render_context" where
  "page_render_context check avail xobj_fonts page =
     (let cmap = font_map (pdf_font page)
      in \<lparr> available_font_list = avail,
           page_encoding_length_map = cmap,
           all_encoding_length_map = cmap,
           xobj_available_fonts =
             foldl (\<lambda>m x. m(xobj_id x \<mapsto> avail \<union> xobj_fonts (xref_id x))) Map.empty (pdf_xobject page),
           xobj_encoding_length_map =
             foldl (\<lambda>m x. m(xobj_id x \<mapsto> font_map (xobj_pdf_font x) ++ cmap)) Map.empty (pdf_xobject page),
           check_font_exists = check \<rparr>)"

fun is_character_unit :: "render_unit \<Rightarrow> bool" where
  "is_character_unit (CharacterRenderUnit _ _ _) = True"
| "is_character_unit (FormRenderUnit _ _ _) = False"

text \<open>
  The buffers \<open>update_page_content_stream\<close> holds after \<open>render_units_to_stream\<close>
  returns, before they are written back into the PDF.
\<close>

definition update_page_content_stream ::
    "translation_config \<Rightarrow> (py_float list \<Rightarrow> string) \<Rightarrow> (string \<Rightarrow> string)
       \<Rightarrow> bool \<Rightarrow> string set \<Rightarrow> (nat \<Rightarrow> string set) \<Rightarrow> il_page \<Rightarrow> translation_config \<Rightarrow> bool \<Rightarrow> buffers" where
  "update_page_content_stream self_config matrix_to_bytes zstd_decompress check avail xobj_fonts page
       translation_config skip_char =
     (let ctm = '' 1 0 0 1 '' @ fmt_f (py_neg (box_x (cropbox page))) @ '' ''
                  @ fmt_f (py_neg (box_y (cropbox page))) @ '' cm '';
          x_ops = initial_xobj_draw_ops zstd_decompress (pdf_xobject page);
          ctx = page_render_context check avail xobj_fonts page;
          p_op = ctm @ '' '' @ [nl];
          units = create_render_units_for_page self_config page translation_config;
          units = (if skip_char then filter (\<lambda>u. \<not> is_character_unit u) units else units)
      in render_units_to_stream matrix_to_bytes units ctx p_op x_ops)"

section \<open>CMap reconstructor\<close>

datatype py_error = ValueError | TypeError | RuntimeError string

text \<open>
  \<open>batched(iterable, n)\<close>: consecutive chunks of \<open>n\<close> items, the last one possibly
  shorter; the loop stops at the first empty chunk.
\<close>

function batched :: "nat \<Rightarrow> 'a list \<Rightarrow> 'a list list" where
  "batched n xs = (if n = 0 \<or> xs = [] then [] else take n xs # batched n (drop n xs))"
  by pat_completeness auto
termination
  by (relation "measure (\<lambda>(n, xs). length xs)") auto

declare batched.simps [simp del]

definition py_join :: "string \<Rightarrow> string list \<Rightarrow> string" where
  "py_join sep xs = (case xs of [] \<Rightarrow> [] | y # ys \<Rightarrow> foldl (\<lambda>acc z. acc @ sep @ z) y ys)"

text \<open>A CMap maps glyph indices to code points, both unsigned.\<close>

type_synonym cmap = "nat \<rightharpoonup> nat"

text \<open>\<open>[(x, cmap[x]) for x in used if x in cmap]\<close>\<close>

definition bfchar_entries :: "cmap \<Rightarrow> nat list \<Rightarrow> (nat \<times> nat) list" where
  "bfchar_entries cmap used =
     concat (map (\<lambda>x. case cmap x of None \<Rightarrow> [] | Some c \<Rightarrow> [(x, c)]) used)"

definition hex4 :: "nat \<Rightarrow> string" where
  "hex4 n = py_format_0x 4 (int n)"

definition high_surrogate :: "nat \<Rightarrow> nat" where
  "high_surrogate c = 0xD800 + drop_bit 10 (c - 0x10000)"

definition low_surrogate :: "nat \<Rightarrow> nat" where
  "low_surrogate c = 0xDC00 + ((c - 0x10000) AND 0x3FF)"

definition bfchar_line :: "nat \<times> nat \<Rightarrow> string" where
  "bfchar_line e =
     (case e of (g, c) \<Rightarrow>
        if c < 0x10000 then ''<'' @ hex4 g @ ''><'' @ hex4 c @ ''>''
        else ''<'' @ hex4 g @ ''><'' @ hex4 (high_surrogate c) @ hex4 (low_surrogate c) @ ''>'')"

definition bfchar_block :: "(nat \<times> nat) list \<Rightarrow> string list" where
  "bfchar_block b = [dec_of_nat (length b) @ '' beginbfchar''] @ map bfchar_line b @ [''endbfchar'']"

definition cmap_header :: string where
  "cmap_header =
     py_join [nl]
       [''/CIDInit /ProcSet findresource begin'', ''12 dict begin'', ''begincmap'',
        ''/CIDSystemInfo <</Registry(Adobe)/Ordering(UCS)/Supplement 0>> def'',
        ''/CMapName /Adobe-Identity-UCS def'', ''/CMapType 2 def'', ''1 begincodespacerange'',
        ''<0000> <FFFF>'', ''endcodespacerange'']"

definition make_tounicode_lines :: "cmap \<Rightarrow> nat list \<Rightarrow> string list" where
  "make_tounicode_lines cmap used =
     [cmap_header]
     @ concat (map bfchar_block (batched 100 (bfchar_entries cmap used)))
     @ [''endcmap'', ''CMapName currentdict /CMap defineresource pop'', ''end'', ''end'']"

definition make_tounicode :: "cmap \<Rightarrow> nat list \<Rightarrow> string" where
  "make_tounicode cmap used = py_join [nl] (make_tounicode_lines cmap used)"

text \<open>\<open>text.split("\n")\<close>, and the lines of the fixed preamble.\<close>

fun split_on :: "'a \<Rightarrow> 'a list \<Rightarrow> 'a list list" where
  "split_on c [] = [[]]"
| "split_on c (x # xs) =
     (if x = c then [] # split_on c xs
      else (case split_on c xs of [] \<Rightarrow> [[x]] | l # ls \<Rightarrow> (x # l) # ls))"

definition header_lines :: "string list" where
  "header_lines =
     [''/CIDInit /ProcSet findresource begin'', ''12 dict begin'', ''begincmap'',
      ''/CIDSystemInfo <</Registry(Adobe)/Ordering(UCS)/Supplement 0>> def'',
      ''/CMapName /Adobe-Identity-UCS def'', ''/CMapType 2 def'', ''1 begincodespacerange'',
      ''<0000> <FFFF>'', ''endcodespacerange'']"

text \<open>
  The lines of a rebuilt CMap that map a glyph: they are the only ones that start
  with an angle bracket.
\<close>

definition is_mapping_line :: "string \<Rightarrow> bool" where
  "is_mapping_line l = (take 1 l = ''<'')"

subsection \<open>Parsing\<close>

text \<open>
  The regular expressions of the parser have no ambiguity: every repetition is followed
  by a character outside the repeated class, so the greedy match is the only match and
  a deterministic scanner computes it. A matcher returns the captured value and the
  text after the match. \<open>finditer\<close> scans left to right, tries the matcher at every
  position and resumes after a match; the second argument counts the characters of the
  current match that are still to be skipped.
\<close>

definition is_space :: "char \<Rightarrow> bool" where
  "is_space c = (c \<in> set [CHR 0x20, CHR 0x09, CHR 0x0A, CHR 0x0D, CHR 0x0C, CHR 0x0B])"

definition is_hex :: "char \<Rightarrow> bool" where
  "is_hex c = (c \<in> set ''0123456789abcdefABCDEF'')"

fun strip_prefix :: "string \<Rightarrow> string \<Rightarrow> string option" where
  "strip_prefix [] s = Some s"
| "strip_prefix (p # ps) [] = None"
| "strip_prefix (p # ps) (c # cs) = (if p = c then strip_prefix ps cs else None)"

fun finditer :: "(string \<Rightarrow> ('a \<times> string) option) \<Rightarrow> nat \<Rightarrow> string \<Rightarrow> 'a list" where
  "finditer m k [] = []"
| "finditer m (Suc k) (c # cs) = finditer m k cs"
| "finditer m 0 (c # cs) =
     (case m (c # cs) of
        None \<Rightarrow> finditer m 0 cs
      | Some (a, rest) \<Rightarrow> a # finditer m (length cs - length rest) cs)"

definition hex_digit_value :: "char \<Rightarrow> nat" where
  "hex_digit_value c =
     (case map_of (zip ''0123456789abcdefABCDEF'' [0, 1, 2, 3, 4, 5, 6, 7, 8, 9, 10, 11, 12, 13, 14, 15, 10, 11, 12, 13, 14, 15]) c of
        None \<Rightarrow> 0
      | Some v \<Rightarrow> v)"

text \<open>\<open>int(text, 16)\<close> on a run of hexadecimal digits.\<close>

definition int16 :: "string \<Rightarrow> nat" where
  "int16 s = foldl (\<lambda>a c. 16 * a + hex_digit_value c) 0 s"

text \<open>The pattern \<open><(?P<num>[a-fA-F0-9]+)>\<close>.\<close>

definition match_hex_token :: "string \<Rightarrow> (string \<times> string) option" where
  "match_hex_token s =
     (case s of
        [] \<Rightarrow> None
      | c # cs \<Rightarrow>
          if c \<noteq> CHR ''<'' then None
          else (let num = takeWhile is_hex cs; r = dropWhile is_hex cs
                in if num = [] then None
                   else (case r of [] \<Rightarrow> None | d # r' \<Rightarrow> if d = CHR ''>'' then Some (num, r') else None)))"

definition parse_mapping :: "string \<Rightarrow> nat list" where
  "parse_mapping text = map int16 (finditer match_hex_token 0 text)"

text \<open>
  The group \<open>(<[0-9a-fA-F]+>\s*)+\<close>: the matched text and the rest. The first
  argument bounds the number of tokens by the length of the text.
\<close>

fun match_token_group :: "nat \<Rightarrow> string \<Rightarrow> (string \<times> string) option" where
  "match_token_group 0 s = None"
| "match_token_group (Suc fuel) s =
     (case match_hex_token s of
        None \<Rightarrow> None
      | Some (num, r) \<Rightarrow>
          (let ws = takeWhile is_space r; r' = dropWhile is_space r;
               tok = ''<'' @ num @ ''>'' @ ws
           in case match_token_group fuel r' of
                None \<Rightarrow> Some (tok, r')
              | Some (toks, r'') \<Rightarrow> Some (tok @ toks, r'')))"

text \<open>
  The patterns \<open>\s+beginbfrange\s*(?P<r>(<[0-9a-fA-F]+>\s*)+)endbfrange\<close> and
  \<open>\s+beginbfchar\s*(?P<c>(<[0-9a-fA-F]+>\s*)+)endbfchar\<close>; the captured value is
  the named group.
\<close>

definition match_block :: "string \<Rightarrow> string \<Rightarrow> string \<Rightarrow> (string \<times> string) option" where
  "match_block begin_kw end_kw s =
     (if takeWhile is_space s = [] then None
      else (case strip_prefix begin_kw (dropWhile is_space s) of
              None \<Rightarrow> None
            | Some r1 \<Rightarrow>
                (case match_token_group (length r1) (dropWhile is_space r1) of
                   None \<Rightarrow> None
                 | Some (grp, r2) \<Rightarrow>
                     (case strip_prefix end_kw r2 of
                        None \<Rightarrow> None
                      | Some r3 \<Rightarrow> Some (grp, r3)))))"

text \<open>
  \<open>apply_normalization\<close>. \<open>nfd\<close> is \<open>unicodedata.normalize("NFD", chr(code))\<close> as a
  list of code points; \<open>ord\<close> raises unless that list has one element.
\<close>

definition apply_normalization :: "(nat \<Rightarrow> nat list) \<Rightarrow> cmap \<Rightarrow> nat \<Rightarrow> nat \<Rightarrow> py_error + cmap" where
  "apply_normalization nfd cmap gid code =
     (if (0x2F00 \<le> code \<and> code \<le> 0x2FD5) \<or> (0xF900 \<le> code \<and> code \<le> 0xFAFF)
      then (case nfd code of [d] \<Rightarrow> Inr (cmap(gid \<mapsto> d)) | _ \<Rightarrow> Inl TypeError)
      else Inr (cmap(gid \<mapsto> code)))"

text \<open>A loop body that may raise, run over a list; the first error ends the loop.\<close>

fun for_each :: "('s \<Rightarrow> 'a \<Rightarrow> py_error + 's) \<Rightarrow> 's \<Rightarrow> 'a list \<Rightarrow> py_error + 's" where
  "for_each f s [] = Inr s"
| "for_each f s (x # xs) = (case f s x of Inl e \<Rightarrow> Inl e | Inr s' \<Rightarrow> for_each f s' xs)"

text \<open>\<open>for s, t, v in batched(..., 3)\<close>: unpacking a shorter chunk raises.\<close>

definition bfrange_step :: "(nat \<Rightarrow> nat list) \<Rightarrow> cmap \<Rightarrow> nat list \<Rightarrow> py_error + cmap" where
  "bfrange_step nfd cmap chunk =
     (case chunk of
        [s, t, v] \<Rightarrow> for_each (\<lambda>m g. apply_normalization nfd m g (v + g - s)) cmap [s ..< t + 1]
      | _ \<Rightarrow> Inl ValueError)"

definition bfchar_step :: "(nat \<Rightarrow> nat list) \<Rightarrow> cmap \<Rightarrow> nat list \<Rightarrow> py_error + cmap" where
  "bfchar_step nfd cmap chunk =
     (case chunk of
        [g, c] \<Rightarrow> apply_normalization nfd cmap g c
      | _ \<Rightarrow> Inl ValueError)"

definition parse_tounicode_cmap :: "(nat \<Rightarrow> nat list) \<Rightarrow> string \<Rightarrow> py_error + cmap" where
  "parse_tounicode_cmap nfd data =
     (case for_each (\<lambda>m grp. for_each (bfrange_step nfd) m (batched 3 (parse_mapping grp)))
                    Map.empty (finditer (match_block ''beginbfrange'' ''endbfrange'') 0 data) of
        Inl e \<Rightarrow> Inl e
      | Inr cmap1 \<Rightarrow>
          for_each (\<lambda>m grp. for_each (bfchar_step nfd) m (batched 2 (parse_mapping grp)))
                   cmap1 (finditer (match_block ''beginbfchar'' ''endbfchar'') 0 data))"

text \<open>
  One reconstruction pass over a stored ToUnicode stream, as \<open>reproduce_cmap\<close> performs
  it for a font: parse, then rebuild for the used glyphs.
\<close>

definition reconstruct :: "(nat \<Rightarrow> nat list) \<Rightarrow> string \<Rightarrow> nat list \<Rightarrow> py_error + string" where
  "reconstruct nfd data used =
     (case parse_tounicode_cmap nfd data of
        Inl e \<Rightarrow> Inl e
      | Inr cmap \<Rightarrow> Inr (make_tounicode cmap used))"

section \<open>Isolated post-processor\<close>

text \<open>
  The file system maps a path to the bytes stored there. The PDF library is outside
  the sources: \<open>serialize\<close> is what \<open>Document.save\<close> writes for a document and its
  options (or the error it raises), \<open>open_bytes\<close> is \<open>pymupdf.open\<close> on the bytes of a
  file. The child process is a function on the file system: what it has done to the
  files by the time the bounded \<open>join\<close> returns, whether it finished, crashed or is
  still running.
\<close>

type_synonym file_system = "string \<rightharpoonup> string"

record save_options =
  garbage :: int
  deflate :: bool
  clean :: bool

record 'd pdf_library =
  serialize :: "'d \<Rightarrow> save_options \<Rightarrow> py_error + string"
  open_bytes :: "string \<Rightarrow> py_error + 'd"
  get_working_file_path :: "string \<Rightarrow> string"

definition default_save_options :: save_options where
  "default_save_options = \<lparr> garbage = 0, deflate = False, clean = False \<rparr>"

text \<open>\<open>pdf.save(path, ...)\<close>\<close>

definition pdf_save :: "'d pdf_library \<Rightarrow> 'd \<Rightarrow> string \<Rightarrow> save_options \<Rightarrow> file_system \<Rightarrow> py_error + file_system" where
  "pdf_save lib pdf path opts fs =
     (case serialize lib pdf opts of
        Inl e \<Rightarrow> Inl e
      | Inr bytes \<Rightarrow> Inr (fs(path \<mapsto> bytes)))"

definition subset_fonts_in_subprocess ::
    "'d pdf_library \<Rightarrow> (string \<Rightarrow> string \<Rightarrow> file_system \<Rightarrow> file_system) \<Rightarrow> 'd \<Rightarrow> string \<Rightarrow> file_system
       \<Rightarrow> (py_error + 'd) \<times> file_system" where
  "subset_fonts_in_subprocess lib child pdf tag fs =
     (let t_in = get_working_file_path lib (''si_'' @ tag @ ''.pdf'');
          t_out = get_working_file_path lib (''so_'' @ tag @ ''.pdf'')
      in case pdf_save lib pdf t_in default_save_options fs of
           Inl e \<Rightarrow> (Inl e, fs)
         | Inr fs1 \<Rightarrow>
             (let fs2 = child t_in t_out fs1
              in case fs2 t_out of
                   Some bytes \<Rightarrow> (open_bytes lib bytes, fs2)
                 | None \<Rightarrow> (Inr pdf, fs2)))"

definition save_pdf_with_timeout ::
    "'d pdf_library \<Rightarrow> (string \<Rightarrow> string \<Rightarrow> save_options \<Rightarrow> file_system \<Rightarrow> file_system) \<Rightarrow> 'd \<Rightarrow> string
       \<Rightarrow> save_options \<Rightarrow> string \<Rightarrow> file_system \<Rightarrow> (py_error + bool) \<times> file_system" where
  "save_pdf_with_timeout lib child pdf output_path opts tag fs =
     (let t_in = get_working_file_path lib (''vi_'' @ tag @ ''.pdf'');
          t_out = get_working_file_path lib (''vo_'' @ tag @ ''.pdf'')
      in case pdf_save lib pdf t_in default_save_options fs of
           Inl e \<Rightarrow> (Inl e, fs)
         | Inr fs1 \<Rightarrow>
             (let fs2 = child t_in t_out opts fs1
              in case fs2 t_out of
                   Some bytes \<Rightarrow> (Inr True, fs2(output_path \<mapsto> bytes))
                 | None \<Rightarrow>
                     (case pdf_save lib pdf output_path (opts\<lparr> clean := False \<rparr>) fs2 of
                        Inl e \<Rightarrow> (Inl e, fs2)
                      | Inr fs3 \<Rightarrow> (Inr False, fs3))))"

section \<open>Write orchestrator\<close>

text \<open>
  Every step of the write sequence acts on the world (the open document, the font
  mapper, the files) and may raise. A raising step leaves the world as it was when the
  exception was thrown, and the retry starts from there.
\<close>

type_synonym 'w step = "'w \<Rightarrow> py_error option \<times> 'w"








section \<open>Concrete inputs\<close>

definition example_char :: il_pdf_character where
  "example_char =
     \<lparr> char_unicode = ''A'', pdf_character_id = Some 0x41,
       pdf_style = \<lparr> font_id = ''F1'', font_size = PyFloat False 12 0, graphic_state = None \<rparr>,
       vertical = False,
       box = \<lparr> box_x = PyFloat False 100 0, box_y = PyFloat False 700 0,
               box_x2 = PyFloat False 110 0, box_y2 = PyFloat False 712 0 \<rparr>,
       char_xobj_id = None, char_render_order = NoAttr \<rparr>"

text \<open>
  A page context that declares no font at all and knows the encoding lengths
  \<open>lens\<close> for the page.
\<close>

definition example_context :: "bool \<Rightarrow> (string \<rightharpoonup> nat) \<Rightarrow> render_context" where
  "example_context strict lens =
     \<lparr> available_font_list = {}, page_encoding_length_map = lens,
       all_encoding_length_map = Map.empty, xobj_available_fonts = Map.empty,
       xobj_encoding_length_map = Map.empty, check_font_exists = strict \<rparr>"

definition example_char_b :: il_pdf_character where
  "example_char_b = example_char\<lparr> char_unicode := ''B'', pdf_character_id := Some 0x42 \<rparr>"

definition example_paragraph :: il_pdf_paragraph where
  "example_paragraph =
     \<lparr> pdf_paragraph_composition =
         [\<lparr> comp_pdf_character = Some example_char, comp_pdf_formula = None \<rparr>,
          \<lparr> comp_pdf_character = Some example_char_b, comp_pdf_formula = None \<rparr>] \<rparr>"

definition example_page :: il_page where
  "example_page =
     \<lparr> cropbox = \<lparr> box_x = PyFloat False 0 0, box_y = PyFloat False 0 0,
                   box_x2 = PyFloat False 612 0, box_y2 = PyFloat False 792 0 \<rparr>,
       pdf_character = [], pdf_paragraph = [example_paragraph], pdf_form = [], pdf_xobject = [],
       pdf_font = [\<lparr> pf_font_id = ''F1'', encoding_length = 2 \<rparr>] \<rparr>"

definition example_config :: "string \<Rightarrow> translation_config" where
  "example_config lang =
     \<lparr> input_file_stem = ''doc'', debug = False, lang_out = lang, skip_form_render = False,
       skip_clean = False, no_mono = False \<rparr>"

definition example_xobject :: il_pdf_xobject where
  "example_xobject = \<lparr> xobj_id = 7, xref_id = 21, base_operations = ''X'', xobj_pdf_font = [] \<rparr>"

text \<open>
  A page with one XObject (id 7) and three characters: one of the page, one of the
  XObject, one that names an XObject (id 9) the page does not have.
\<close>

definition routing_page :: il_page where
  "routing_page =
     \<lparr> cropbox = \<lparr> box_x = PyFloat False 0 0, box_y = PyFloat False 0 0,
                   box_x2 = PyFloat False 612 0, box_y2 = PyFloat False 792 0 \<rparr>,
       pdf_character =
         [example_char, example_char\<lparr> char_xobj_id := Some 7 \<rparr>, example_char\<lparr> char_xobj_id := Some 9 \<rparr>],
       pdf_paragraph = [], pdf_form = [], pdf_xobject = [example_xobject],
       pdf_font = [\<lparr> pf_font_id = ''F1'', encoding_length = 2 \<rparr>] \<rparr>"

text \<open>
  A library whose documents are their own bytes, and temporary files under \<open>/tmp/\<close>.
\<close>

definition example_library :: "string pdf_library" where
  "example_library =
     \<lparr> serialize = (\<lambda>pdf opts. Inr (pdf @ (if clean opts then ''#clean'' else ''#plain''))),
       open_bytes = (\<lambda>bytes. Inr bytes),
       get_working_file_path = (\<lambda>name. ''/tmp/'' @ name) \<rparr>"


section \<open>Auxiliary facts\<close>

lemma replicate_num: "replicate (numeral k) x = x # replicate (pred_numeral k) x"
  by (simp add: numeral_eq_Suc)

lemma digit_char_mem: "d < 16 \<Longrightarrow> digit_char d \<in> set ''0123456789abcdef''"
  unfolding digit_char_def by (rule nth_mem) simp

lemma hex_of_nat_set: "set (hex_of_nat n) \<subseteq> set ''0123456789abcdef''"
proof (induction n rule: hex_of_nat.induct)
  case (1 n)
  show ?case
  proof (cases "n < 16")
    case True
    then show ?thesis using digit_char_mem [of n] by (subst hex_of_nat.simps) simp
  next
    case False
    have "n mod 16 < 16" by simp
    then have "digit_char (n mod 16) \<in> set ''0123456789abcdef''" by (rule digit_char_mem)
    with False 1 show ?thesis by (subst hex_of_nat.simps) simp
  qed
qed

lemma hex_of_nat_length: "0 < k \<Longrightarrow> n < 16 ^ k \<Longrightarrow> length (hex_of_nat n) \<le> k"
proof (induction n arbitrary: k rule: hex_of_nat.induct)
  case (1 n)
  show ?case
  proof (cases "n < 16")
    case True
    with 1(2) show ?thesis by (subst hex_of_nat.simps) simp
  next
    case False
    obtain j where k: "k = Suc j" using 1(2) by (cases k) auto
    have "0 < j" using False 1(3) k by (cases j) auto
    moreover have "n div 16 < 16 ^ j" using 1(3) k by (simp add: less_mult_imp_div_less mult.commute)
    ultimately have "length (hex_of_nat (n div 16)) \<le> j" using 1(1) [OF False, of j] by simp
    with False k show ?thesis by (subst hex_of_nat.simps) simp
  qed
qed

lemma upper_char_hex_all: "\<forall>c \<in> set ''0123456789abcdef''. upper_char c \<in> set ''0123456789ABCDEF''"
  by (simp add: upper_char_def)

lemma map_set_into: "\<forall>c \<in> A. f c \<in> B \<Longrightarrow> set s \<subseteq> A \<Longrightarrow> set (map f s) \<subseteq> B"
  by auto

lemma py_upper_hex: "set s \<subseteq> set ''0123456789abcdef'' \<Longrightarrow> set (py_upper s) \<subseteq> set ''0123456789ABCDEF''"
  unfolding py_upper_def by (rule map_set_into [OF upper_char_hex_all])

lemma py_upper_length: "length (py_upper s) = length s"
  by (simp add: py_upper_def)

lemma glyph_token_split: "glyph_token n cid = ''<'' @ py_upper (py_format_0x (n * 2) cid) @ ''>''"
  by (simp add: glyph_token_def py_upper_def upper_char_def)

lemma format_0x_fits:
  assumes "0 \<le> cid" and "cid < 256 ^ n" and "0 < n"
  shows "length (py_format_0x (n * 2) cid) = 2 * n"
    and "set (py_format_0x (n * 2) cid) \<subseteq> set ''0123456789abcdef''"
proof -
  have "nat cid < 256 ^ n" using assms(1,2) by (simp add: nat_less_iff)
  also have "(256::nat) ^ n = (16 ^ 2) ^ n" by simp
  also have "\<dots> = 16 ^ (2 * n)" by (rule power_mult [symmetric])
  also have "2 * n = n * 2" by simp
  finally have "length (hex_of_nat (nat cid)) \<le> n * 2" using assms(3) by (intro hex_of_nat_length) simp_all
  then show "length (py_format_0x (n * 2) cid) = 2 * n"
    using assms(1) by (simp add: py_format_0x_def zfill_def)
  have "set (zfill (n * 2) (hex_of_nat (nat cid))) \<subseteq> set ''0123456789abcdef''"
    using hex_of_nat_set [of "nat cid"] by (auto simp: zfill_def)
  then show "set (py_format_0x (n * 2) cid) \<subseteq> set ''0123456789abcdef''"
    using assms(1) by (simp add: py_format_0x_def)
qed

lemma character_render_emits:
  assumes "pdf_character_id c = Some cid" and "char_unicode c \<noteq> [nl]"
    and "\<not> (check_font_exists ctx \<and> font_id (pdf_style c) \<notin> resolved_available_fonts ctx (char_xobj_id c))"
    and "resolved_encoding_length ctx (char_xobj_id c) (font_id (pdf_style c)) = Some n"
  shows "character_render ctx c =
           ''q '' @ render_graphic_state (graphic_state (pdf_style c)) @ text_matrix_op c
             @ glyph_token n cid @ '' Tj ET Q '' @ [nl]"
  using assms by (simp add: character_render_def)

section \<open>Character render unit: emission\<close>

lemma zfill6_zero: "zfill 6 (dec_of_nat 0) = ''000000''"
  by (simp add: zfill_def dec_of_nat.simps digit_char_def replicate_num)

lemma fmt_f_int: "fmt_f (PyFloat s m 0) = (if s then ''-'' else []) @ dec_of_nat m @ ''.000000''"
proof -
  have r: "nat (round_micro (PyFloat s m 0)) = m * 1000000"
    by (simp add: round_micro_def nat_mult_distrib)
  show ?thesis
    unfolding fmt_f_def r Let_def using zfill6_zero by simp
qed

lemmas example_eval =
  example_char_def example_context_def character_render_def text_matrix_op_def
  render_graphic_state_def resolved_available_fonts_def resolved_encoding_length_def get_or_def
  fmt_f_int dec_of_nat.simps hex_of_nat.simps digit_char_def zfill_def replicate_num
  glyph_token_def py_format_0x_def py_upper_def upper_char_def nl_def


text \<open>
  C1 (as amended). A Character unit whose font id is not in the available-font set
  resolved for its container emits zero bytes under strict checking. Under non-strict
  checking it emits its full text block whenever an encoding length is resolvable,
  provided it is not a newline marker and has a glyph id.
\<close>

theorem absent_font_emission:
  assumes "font_id (pdf_style c) \<notin> resolved_available_fonts ctx (char_xobj_id c)"
  shows "(check_font_exists ctx \<longrightarrow> character_render ctx c = [])
       \<and> (\<not> check_font_exists ctx \<and> char_unicode c \<noteq> [nl] \<and> pdf_character_id c = Some cid
            \<and> resolved_encoding_length ctx (char_xobj_id c) (font_id (pdf_style c)) = Some n
          \<longrightarrow> character_render ctx c =
                ''q '' @ render_graphic_state (graphic_state (pdf_style c)) @ text_matrix_op c
                  @ glyph_token n cid @ '' Tj ET Q '' @ [nl])"
  using assms by (simp add: character_render_def split: option.split)

theorem absent_font_emission_witness:
  "character_render (example_context True [''F1'' \<mapsto> 2]) example_char = []
   \<and> character_render (example_context False [''F1'' \<mapsto> 2]) example_char
       = ''q BT /F1 12.000000 Tf 1 0 0 1 100.000000 700.000000 Tm <0041> Tj ET Q '' @ [nl]"
  using absent_font_emission [of example_char "example_context True [''F1'' \<mapsto> 2]" "0x41" 2]
        absent_font_emission [of example_char "example_context False [''F1'' \<mapsto> 2]" "0x41" 2]
  by (simp add: example_eval)

text \<open>
  The claim as first stated fails for a newline marker: font absent, checking not
  strict, encoding length resolvable, and still nothing is emitted.
\<close>

theorem absent_font_emission_counterexample:
  "font_id (pdf_style (example_char\<lparr>char_unicode := [nl]\<rparr>))
     \<notin> resolved_available_fonts (example_context False [''F1'' \<mapsto> 2]) (char_xobj_id (example_char\<lparr>char_unicode := [nl]\<rparr>))
   \<and> \<not> check_font_exists (example_context False [''F1'' \<mapsto> 2])
   \<and> resolved_encoding_length (example_context False [''F1'' \<mapsto> 2])
        (char_xobj_id (example_char\<lparr>char_unicode := [nl]\<rparr>)) (font_id (pdf_style (example_char\<lparr>char_unicode := [nl]\<rparr>))) = Some 2
   \<and> character_render (example_context False [''F1'' \<mapsto> 2]) (example_char\<lparr>char_unicode := [nl]\<rparr>) = []"
  by (simp add: example_eval)

text \<open>
  C3. A Character unit with no resolvable encoding length is claimed to append zero
  bytes. At this input the unit has already appended the graphics-state save and the
  text-matrix operator when the missing encoding length makes it return.
\<close>

theorem no_encoding_length_partial_output:
  "resolved_encoding_length (example_context False Map.empty) (char_xobj_id example_char)
       (font_id (pdf_style example_char)) = None
   \<and> character_render (example_context False Map.empty) example_char
       = ''q BT /F1 12.000000 Tf 1 0 0 1 100.000000 700.000000 Tm ''"
  by (simp add: example_eval)

text \<open>
  C8. A Character unit that emits its text-showing operator writes the glyph id
  between angle brackets in uppercase hexadecimal with exactly
  \<open>2 * encoding_length\<close> digits, for a glyph id that fits in \<open>encoding_length\<close>
  bytes, which the data model leaves to the caller to ensure.
\<close>

theorem glyph_code_width:
  assumes "pdf_character_id c = Some cid" and "char_unicode c \<noteq> [nl]"
    and "\<not> (check_font_exists ctx \<and> font_id (pdf_style c) \<notin> resolved_available_fonts ctx (char_xobj_id c))"
    and "resolved_encoding_length ctx (char_xobj_id c) (font_id (pdf_style c)) = Some n"
    and "0 \<le> cid" and "cid < 256 ^ n" and "0 < n"
  shows "character_render ctx c =
           ''q '' @ render_graphic_state (graphic_state (pdf_style c)) @ text_matrix_op c
             @ ''<'' @ py_upper (py_format_0x (n * 2) cid) @ ''>'' @ '' Tj ET Q '' @ [nl]
       \<and> length (py_upper (py_format_0x (n * 2) cid)) = 2 * n
       \<and> set (py_upper (py_format_0x (n * 2) cid)) \<subseteq> set ''0123456789ABCDEF''"
proof (intro conjI)
  show "character_render ctx c =
           ''q '' @ render_graphic_state (graphic_state (pdf_style c)) @ text_matrix_op c
             @ ''<'' @ py_upper (py_format_0x (n * 2) cid) @ ''>'' @ '' Tj ET Q '' @ [nl]"
    using character_render_emits [OF assms(1-4)] by (simp add: glyph_token_split)
  show "length (py_upper (py_format_0x (n * 2) cid)) = 2 * n"
    using format_0x_fits(1) [OF assms(5-7)] by (simp add: py_upper_length)
  show "set (py_upper (py_format_0x (n * 2) cid)) \<subseteq> set ''0123456789ABCDEF''"
    using format_0x_fits(2) [OF assms(5-7)] by (rule py_upper_hex)
qed

theorem glyph_code_width_witness:
  "character_render (example_context False [''F1'' \<mapsto> 2]) example_char
     = ''q BT /F1 12.000000 Tf 1 0 0 1 100.000000 700.000000 Tm '' @ ''<'' @ ''0041'' @ ''>'' @ '' Tj ET Q '' @ [nl]
   \<and> py_upper (py_format_0x (2 * 2) 0x41) = ''0041''
   \<and> length (py_upper (py_format_0x (2 * 2) 0x41)) = 2 * 2"
  using glyph_code_width [of example_char "0x41" "example_context False [''F1'' \<mapsto> 2]" 2]
  by (simp add: example_eval)

text \<open>
  Outside that precondition nothing is cut off: with encoding length 1 the glyph id
  0x141 is written with three digits.
\<close>

lemma glyph_code_not_truncated:
  "resolved_encoding_length (example_context False [''F1'' \<mapsto> 1]) (char_xobj_id (example_char\<lparr>pdf_character_id := Some 0x141\<rparr>))
       (font_id (pdf_style (example_char\<lparr>pdf_character_id := Some 0x141\<rparr>))) = Some 1
   \<and> character_render (example_context False [''F1'' \<mapsto> 1]) (example_char\<lparr>pdf_character_id := Some 0x141\<rparr>)
       = ''q BT /F1 12.000000 Tf 1 0 0 1 100.000000 700.000000 Tm <141> Tj ET Q '' @ [nl]
   \<and> length ''141'' \<noteq> 2 * (1::nat)"
  by (simp add: example_eval)

section \<open>CMap reconstructor: rebuilt entries\<close>

lemma batched_concat: "0 < n \<Longrightarrow> concat (batched n xs) = xs"
proof (induction n xs rule: batched.induct)
  case (1 n xs)
  show ?case
  proof (cases "xs = []")
    case True
    then show ?thesis by (subst batched.simps) simp
  next
    case False
    with 1 show ?thesis by (subst batched.simps) simp
  qed
qed

lemma batched_chunks: "b \<in> set (batched n xs) \<Longrightarrow> b \<noteq> [] \<and> length b \<le> n"
proof (induction n xs rule: batched.induct)
  case (1 n xs)
  show ?case
  proof (cases "n = 0 \<or> xs = []")
    case True
    with 1(2) show ?thesis by (subst (asm) batched.simps) simp
  next
    case False
    from 1(2) have "b = take n xs \<or> b \<in> set (batched n (drop n xs))"
      using False by (subst (asm) batched.simps) simp
    then show ?thesis
    proof
      assume "b = take n xs"
      with False show ?thesis by simp
    next
      assume "b \<in> set (batched n (drop n xs))"
      with 1(1) [OF False] show ?thesis by simp
    qed
  qed
qed

lemma bfchar_entries_iff:
  "(g, c) \<in> set (bfchar_entries cmap used) \<longleftrightarrow> g \<in> set used \<and> cmap g = Some c"
  by (induction used) (auto simp: bfchar_entries_def split: option.splits)

lemma bfchar_entries_glyphs: "fst ` set (bfchar_entries cmap used) = dom cmap \<inter> set used"
proof (rule set_eqI)
  fix g
  have "g \<in> fst ` set (bfchar_entries cmap used) \<longleftrightarrow> (\<exists>c. (g, c) \<in> set (bfchar_entries cmap used))"
    by force
  also have "\<dots> \<longleftrightarrow> g \<in> dom cmap \<inter> set used"
    by (auto simp: bfchar_entries_iff)
  finally show "g \<in> fst ` set (bfchar_entries cmap used) \<longleftrightarrow> g \<in> dom cmap \<inter> set used" .
qed

lemma dec_of_nat_nonempty: "dec_of_nat n \<noteq> []"
  by (subst dec_of_nat.simps) simp

lemma dec_of_nat_set: "set (dec_of_nat n) \<subseteq> set ''0123456789abcdef''"
proof (induction n rule: dec_of_nat.induct)
  case (1 n)
  show ?case
  proof (cases "n < 10")
    case True
    then have "n < 16" by simp
    then have "digit_char n \<in> set ''0123456789abcdef''" by (rule digit_char_mem)
    with True show ?thesis by (subst dec_of_nat.simps) simp
  next
    case False
    have "n mod 10 < 16" using mod_less_divisor [of 10 n] by simp
    then have "digit_char (n mod 10) \<in> set ''0123456789abcdef''" by (rule digit_char_mem)
    with False 1 show ?thesis by (subst dec_of_nat.simps) simp
  qed
qed

lemma bfchar_line_is_mapping: "is_mapping_line (bfchar_line e)"
  by (cases e) (simp add: bfchar_line_def is_mapping_line_def)

lemma count_line_not_mapping: "\<not> is_mapping_line (dec_of_nat n @ '' beginbfchar'')"
proof -
  obtain d ds where d: "dec_of_nat n = d # ds" using dec_of_nat_nonempty [of n] by (cases "dec_of_nat n") auto
  then have "d \<in> set ''0123456789abcdef''" using dec_of_nat_set [of n] by auto
  moreover have "CHR ''<'' \<notin> set ''0123456789abcdef''" by simp
  ultimately have "d \<noteq> CHR ''<''" by metis
  with d show ?thesis by (simp add: is_mapping_line_def)
qed

lemma filter_bfchar_block: "filter is_mapping_line (bfchar_block b) = map bfchar_line b"
proof -
  have "filter is_mapping_line (map bfchar_line b) = map bfchar_line b"
    by (induction b) (simp_all add: bfchar_line_is_mapping)
  then show ?thesis
    by (simp add: bfchar_block_def count_line_not_mapping) (simp add: is_mapping_line_def)
qed

lemma filter_blocks: "filter is_mapping_line (concat (map bfchar_block bs)) = map bfchar_line (concat bs)"
  by (induction bs) (simp_all add: filter_bfchar_block)

lemma cmap_header_not_mapping: "\<not> is_mapping_line cmap_header"
  by (simp add: cmap_header_def py_join_def is_mapping_line_def)

lemma mapping_lines: "filter is_mapping_line (make_tounicode_lines cmap used) = map bfchar_line (bfchar_entries cmap used)"
proof -
  have "filter is_mapping_line (make_tounicode_lines cmap used)
        = filter is_mapping_line (concat (map bfchar_block (batched 100 (bfchar_entries cmap used))))"
    by (simp add: make_tounicode_lines_def cmap_header_not_mapping) (simp add: is_mapping_line_def)
  also have "\<dots> = map bfchar_line (concat (batched 100 (bfchar_entries cmap used)))"
    by (rule filter_blocks)
  also have "concat (batched 100 (bfchar_entries cmap used)) = bfchar_entries cmap used"
    by (rule batched_concat) simp
  finally show ?thesis .
qed


lemma and_1023: "(x::nat) AND 0x3FF = x mod 1024"
proof -
  have "(0x3FF::nat) = mask 10" by (simp add: mask_eq_exp_minus_1)
  then have "x AND 0x3FF = take_bit 10 x" by (simp add: take_bit_eq_mask)
  then show ?thesis by (simp add: take_bit_eq_mod)
qed

lemma drop_10: "drop_bit 10 (x::nat) = x div 1024"
  by (simp add: drop_bit_eq_div)

lemma zfill_length: "length s \<le> w \<Longrightarrow> length (zfill w s) = w"
  by (simp add: zfill_def)

lemma hex4_length: "n < 65536 \<Longrightarrow> length (hex4 n) = 4"
proof -
  assume "n < 65536"
  then have "n < 16 ^ 4" by simp
  then have "length (hex_of_nat n) \<le> 4" by (intro hex_of_nat_length) simp_all
  then show ?thesis by (simp add: hex4_def py_format_0x_def zfill_length)
qed

lemma surrogate_ranges:
  assumes "0x10000 \<le> c" and "c \<le> 0x10FFFF"
  shows "0xD800 \<le> high_surrogate c" and "high_surrogate c \<le> 0xDBFF"
    and "0xDC00 \<le> low_surrogate c" and "low_surrogate c \<le> 0xDFFF"
    and "0x10000 + (high_surrogate c - 0xD800) * 0x400 + (low_surrogate c - 0xDC00) = c"
proof -
  define x where "x = c - 0x10000"
  have x: "x < 1024 * 1024" and c: "c = 0x10000 + x" using assms by (simp_all add: x_def)
  have hi: "high_surrogate c = 0xD800 + x div 1024" by (simp add: high_surrogate_def drop_10 x_def)
  have lo: "low_surrogate c = 0xDC00 + x mod 1024" by (simp add: low_surrogate_def and_1023 x_def)
  have d: "x div 1024 < 1024" using x by (simp add: less_mult_imp_div_less)
  have m: "x mod 1024 < 1024" by simp
  show "0xD800 \<le> high_surrogate c" unfolding hi by simp
  show "high_surrogate c \<le> 0xDBFF" unfolding hi using d by simp
  show "0xDC00 \<le> low_surrogate c" unfolding lo by simp
  show "low_surrogate c \<le> 0xDFFF" unfolding lo using m by simp
  have "0x10000 + (high_surrogate c - 0xD800) * 0x400 + (low_surrogate c - 0xDC00)
        = 0x10000 + (x div 1024 * 1024 + x mod 1024)"
    by (simp add: hi lo)
  also have "\<dots> = 0x10000 + x" by simp
  finally show "0x10000 + (high_surrogate c - 0xD800) * 0x400 + (low_surrogate c - 0xDC00) = c"
    using c by simp
qed

text \<open>
  C2. Every entry of the rebuilt CMap whose code point is at least 0x10000 is written
  as the glyph index followed by the high surrogate \<open>0xD800 + ((c - 0x10000) >> 10)\<close>
  and the low surrogate \<open>0xDC00 + ((c - 0x10000) & 0x3FF)\<close>, four hexadecimal digits
  each; for a code point of Unicode (at most 0x10FFFF) the two values lie in the
  surrogate ranges and decode back to the code point.
\<close>

theorem surrogate_pair_entry:
  assumes "(g, c) \<in> set (bfchar_entries cmap used)" and "0x10000 \<le> c"
  shows "bfchar_line (g, c) \<in> set (make_tounicode_lines cmap used)
       \<and> bfchar_line (g, c) = ''<'' @ hex4 g @ ''><'' @ hex4 (high_surrogate c) @ hex4 (low_surrogate c) @ ''>''
       \<and> high_surrogate c = 0xD800 + drop_bit 10 (c - 0x10000)
       \<and> low_surrogate c = 0xDC00 + ((c - 0x10000) AND 0x3FF)
       \<and> (c \<le> 0x10FFFF \<longrightarrow>
             0xD800 \<le> high_surrogate c \<and> high_surrogate c \<le> 0xDBFF
           \<and> 0xDC00 \<le> low_surrogate c \<and> low_surrogate c \<le> 0xDFFF
           \<and> 0x10000 + (high_surrogate c - 0xD800) * 0x400 + (low_surrogate c - 0xDC00) = c
           \<and> length (hex4 (high_surrogate c)) = 4 \<and> length (hex4 (low_surrogate c)) = 4)"
proof (intro conjI impI)
  have "bfchar_line (g, c) \<in> set (map bfchar_line (bfchar_entries cmap used))"
    using assms(1) unfolding set_map by (rule imageI)
  then have "bfchar_line (g, c) \<in> set (filter is_mapping_line (make_tounicode_lines cmap used))"
    by (simp only: mapping_lines)
  then show "bfchar_line (g, c) \<in> set (make_tounicode_lines cmap used)" by simp
  show "bfchar_line (g, c) = ''<'' @ hex4 g @ ''><'' @ hex4 (high_surrogate c) @ hex4 (low_surrogate c) @ ''>''"
    using assms(2) by (simp add: bfchar_line_def)
  show "high_surrogate c = 0xD800 + drop_bit 10 (c - 0x10000)" by (simp add: high_surrogate_def)
  show "low_surrogate c = 0xDC00 + ((c - 0x10000) AND 0x3FF)" by (simp add: low_surrogate_def)
next
  assume u: "c \<le> 0x10FFFF"
  note r = surrogate_ranges [OF assms(2) u]
  show "0xD800 \<le> high_surrogate c" by (rule r(1))
  show "high_surrogate c \<le> 0xDBFF" by (rule r(2))
  show "0xDC00 \<le> low_surrogate c" by (rule r(3))
  show "low_surrogate c \<le> 0xDFFF" by (rule r(4))
  show "0x10000 + (high_surrogate c - 0xD800) * 0x400 + (low_surrogate c - 0xDC00) = c" by (rule r(5))
  show "length (hex4 (high_surrogate c)) = 4" using r(2) by (intro hex4_length) simp
  show "length (hex4 (low_surrogate c)) = 4" using r(4) by (intro hex4_length) simp
qed

lemmas cmap_eval =
  bfchar_entries_def bfchar_line_def high_surrogate_def low_surrogate_def hex4_def
  py_format_0x_def zfill_def hex_of_nat.simps dec_of_nat.simps digit_char_def replicate_num

theorem surrogate_pair_entry_witness:
  "(5, 0x1F600) \<in> set (bfchar_entries [5 \<mapsto> 0x1F600] [5])
   \<and> bfchar_line (5, 0x1F600) \<in> set (make_tounicode_lines [5 \<mapsto> 0x1F600] [5])
   \<and> bfchar_line (5, 0x1F600) = ''<0005><d83dde00>''
   \<and> high_surrogate 0x1F600 = 0xD83D \<and> low_surrogate 0x1F600 = 0xDE00"
  using surrogate_pair_entry [of 5 "0x1F600" "[5 \<mapsto> 0x1F600]" "[5]"]
  by (simp add: cmap_eval)

section \<open>CMap reconstructor: the text of the rebuilt CMap\<close>

lemma foldl_join:
  "foldl (\<lambda>acc z. acc @ sep @ z) (a @ b) ys = a @ foldl (\<lambda>acc z. acc @ sep @ z) b ys"
  by (induction ys arbitrary: b) simp_all

lemma py_join_single: "py_join sep [x] = x"
  by (simp add: py_join_def)

lemma py_join_Cons2: "py_join sep (x # y # ys) = x @ sep @ py_join sep (y # ys)"
proof -
  have "py_join sep (x # y # ys) = foldl (\<lambda>acc z. acc @ sep @ z) ((x @ sep) @ y) ys"
    by (simp add: py_join_def)
  also have "\<dots> = (x @ sep) @ foldl (\<lambda>acc z. acc @ sep @ z) y ys"
    by (rule foldl_join)
  finally show ?thesis by (simp add: py_join_def)
qed

lemma py_join_append:
  "xs \<noteq> [] \<Longrightarrow> ys \<noteq> [] \<Longrightarrow> py_join sep (xs @ ys) = py_join sep xs @ sep @ py_join sep ys"
proof (induction xs)
  case Nil
  then show ?case by simp
next
  case (Cons x xs)
  obtain y ys' where ys: "ys = y # ys'" using Cons.prems(2) by (cases ys) auto
  show ?case
  proof (cases xs)
    case Nil
    then show ?thesis by (simp add: ys py_join_Cons2 py_join_single)
  next
    case (Cons x' xs')
    then have "py_join sep (xs @ ys) = py_join sep xs @ sep @ py_join sep ys"
      using Cons.IH Cons.prems(2) by simp
    then show ?thesis using Cons by (simp add: py_join_Cons2)
  qed
qed

lemma py_join_nested:
  "hs \<noteq> [] \<Longrightarrow> py_join sep (py_join sep hs # rest) = py_join sep (hs @ rest)"
proof (cases rest)
  case Nil
  then show ?thesis by (simp add: py_join_single)
next
  case (Cons r rs)
  assume "hs \<noteq> []"
  then have "py_join sep (hs @ rest) = py_join sep hs @ sep @ py_join sep rest"
    using Cons by (intro py_join_append) simp_all
  then show ?thesis using Cons by (simp add: py_join_Cons2)
qed

lemma split_on_nonempty: "split_on c s \<noteq> []"
  by (induction s) (auto split: list.splits)

lemma split_on_no: "c \<notin> set l \<Longrightarrow> split_on c l = [l]"
  by (induction l) auto

lemma split_on_app: "c \<notin> set l \<Longrightarrow> split_on c (l @ c # r) = l # split_on c r"
  by (induction l) (auto split: list.splits simp: split_on_nonempty)

lemma split_join:
  "ls \<noteq> [] \<Longrightarrow> \<forall>l \<in> set ls. c \<notin> set l \<Longrightarrow> split_on c (py_join [c] ls) = ls"
proof (induction ls)
  case Nil
  then show ?case by simp
next
  case (Cons l ls)
  show ?case
  proof (cases ls)
    case Nil
    then show ?thesis using Cons.prems by (simp add: py_join_single split_on_no)
  next
    case (Cons l' ls')
    then have "split_on c (py_join [c] ls) = ls" using Cons.IH Cons.prems by simp
    moreover have "c \<notin> set l" using Cons.prems by simp
    ultimately show ?thesis using Cons by (simp add: py_join_Cons2 split_on_app)
  qed
qed

lemma zfill_set: "set (zfill w s) \<subseteq> insert (CHR ''0'') (set s)"
  by (auto simp: zfill_def)

lemma hex4_set: "set (hex4 n) \<subseteq> set ''0123456789abcdef''"
proof -
  have "set (hex4 n) \<subseteq> insert (CHR ''0'') (set (hex_of_nat n))"
    using zfill_set [of 4 "hex_of_nat n"] by (simp add: hex4_def py_format_0x_def)
  also have "\<dots> \<subseteq> set ''0123456789abcdef''"
    using hex_of_nat_set [of n] by simp
  finally show ?thesis .
qed

lemma nl_not_digit: "nl \<notin> set ''0123456789abcdef''"
  by (simp add: nl_def)

lemma hex4_no_nl: "nl \<notin> set (hex4 n)"
  using hex4_set [of n] nl_not_digit by blast

lemma bfchar_line_no_nl: "nl \<notin> set (bfchar_line e)"
proof (cases e)
  case (Pair g c)
  have "nl \<noteq> CHR ''<''" "nl \<noteq> CHR ''>''" by (simp_all add: nl_def)
  then show ?thesis
    using hex4_no_nl by (simp add: Pair bfchar_line_def)
qed

lemma count_line_no_nl: "nl \<notin> set (dec_of_nat n @ '' beginbfchar'')"
proof -
  have "nl \<notin> set (dec_of_nat n)" using dec_of_nat_set [of n] nl_not_digit by blast
  moreover have "nl \<notin> set '' beginbfchar''" by (simp add: nl_def)
  ultimately show ?thesis by simp
qed

lemma bfchar_block_no_nl: "l \<in> set (bfchar_block b) \<Longrightarrow> nl \<notin> set l"
proof -
  assume "l \<in> set (bfchar_block b)"
  then consider "l = dec_of_nat (length b) @ '' beginbfchar''" | "l \<in> bfchar_line ` set b" | "l = ''endbfchar''"
    by (auto simp: bfchar_block_def)
  then show ?thesis
  proof cases
    case 1
    then show ?thesis using count_line_no_nl by simp
  next
    case 2
    then show ?thesis using bfchar_line_no_nl by auto
  next
    case 3
    then show ?thesis by (simp add: nl_def)
  qed
qed


lemma header_no_nl: "\<forall>l \<in> set header_lines. nl \<notin> set l"
  by (simp add: header_lines_def nl_def)

lemma footer_no_nl:
  "\<forall>l \<in> set [''endcmap'', ''CMapName currentdict /CMap defineresource pop'', ''end'', ''end'']. nl \<notin> set l"
  by (simp add: nl_def)

lemma make_tounicode_text:
  "split_on nl (make_tounicode cmap used) =
     header_lines @ concat (map bfchar_block (batched 100 (bfchar_entries cmap used)))
       @ [''endcmap'', ''CMapName currentdict /CMap defineresource pop'', ''end'', ''end'']"
proof -
  let ?rest = "concat (map bfchar_block (batched 100 (bfchar_entries cmap used)))
       @ [''endcmap'', ''CMapName currentdict /CMap defineresource pop'', ''end'', ''end'']"
  have h: "cmap_header = py_join [nl] header_lines"
    by (simp add: cmap_header_def header_lines_def)
  have ne: "header_lines \<noteq> []" by (simp add: header_lines_def)
  have "make_tounicode cmap used = py_join [nl] (py_join [nl] header_lines # ?rest)"
    by (simp add: make_tounicode_def make_tounicode_lines_def h)
  also have "\<dots> = py_join [nl] (header_lines @ ?rest)"
    using ne by (rule py_join_nested)
  finally have t: "make_tounicode cmap used = py_join [nl] (header_lines @ ?rest)" .
  have "\<forall>l \<in> set (header_lines @ ?rest). nl \<notin> set l"
  proof
    fix l
    assume "l \<in> set (header_lines @ ?rest)"
    then consider "l \<in> set header_lines"
      | b where "b \<in> set (batched 100 (bfchar_entries cmap used))" "l \<in> set (bfchar_block b)"
      | "l \<in> set [''endcmap'', ''CMapName currentdict /CMap defineresource pop'', ''end'', ''end'']"
      by auto
    then show "nl \<notin> set l"
    proof cases
      case 1
      then show ?thesis using header_no_nl by blast
    next
      case 2
      then show ?thesis using bfchar_block_no_nl by blast
    next
      case 3
      then show ?thesis using footer_no_nl by blast
    qed
  qed
  moreover have "header_lines @ ?rest \<noteq> []" using ne by simp
  ultimately have "split_on nl (py_join [nl] (header_lines @ ?rest)) = header_lines @ ?rest"
    by (intro split_join)
  then show ?thesis by (simp only: t)
qed

lemma hex_digit_value_digit: "d < 16 \<Longrightarrow> hex_digit_value (digit_char d) = d"
proof -
  assume "d < 16"
  have l: "[0 ..< 16] = [0, 1, 2, 3, 4, 5, 6, 7, 8, 9, 10, 11, 12, 13, 14, 15 :: nat]"
    by (simp add: upt_conv_Cons)
  have "d \<in> set [0 ..< 16]" using \<open>d < 16\<close> by simp
  then have "d \<in> set [0, 1, 2, 3, 4, 5, 6, 7, 8, 9, 10, 11, 12, 13, 14, 15 :: nat]"
    by (simp only: l)
  moreover have "\<forall>k \<in> set [0, 1, 2, 3, 4, 5, 6, 7, 8, 9, 10, 11, 12, 13, 14, 15 :: nat].
                   hex_digit_value (digit_char k) = k"
    by (simp add: hex_digit_value_def digit_char_def)
  ultimately show ?thesis by blast
qed

lemma int16_snoc: "int16 (s @ [c]) = 16 * int16 s + hex_digit_value c"
  by (simp add: int16_def)

lemma int16_hex_of_nat: "int16 (hex_of_nat n) = n"
proof (induction n rule: hex_of_nat.induct)
  case (1 n)
  show ?case
  proof (cases "n < 16")
    case True
    then show ?thesis
      by (subst hex_of_nat.simps) (simp add: int16_def hex_digit_value_digit)
  next
    case False
    have "int16 (hex_of_nat n) = int16 (hex_of_nat (n div 16) @ [digit_char (n mod 16)])"
      using False by (subst hex_of_nat.simps) simp
    also have "\<dots> = 16 * (n div 16) + n mod 16"
      using 1 [OF False] by (simp add: int16_snoc hex_digit_value_digit)
    also have "\<dots> = n" by simp
    finally show ?thesis .
  qed
qed

lemma int16_append: "int16 (a @ b) = int16 a * 16 ^ length b + int16 b"
proof (induction b rule: rev_induct)
  case Nil
  then show ?case by (simp add: int16_def)
next
  case (snoc c b)
  have "int16 (a @ b @ [c]) = 16 * int16 (a @ b) + hex_digit_value c"
    using int16_snoc [of "a @ b" c] by simp
  also have "\<dots> = 16 * (int16 a * 16 ^ length b + int16 b) + hex_digit_value c"
    by (simp only: snoc.IH)
  also have "\<dots> = int16 a * 16 ^ length (b @ [c]) + int16 (b @ [c])"
    by (simp add: int16_snoc algebra_simps)
  finally show ?case .
qed

lemma int16_zeros: "int16 (replicate k (CHR ''0'')) = 0"
  by (induction k) (simp_all add: int16_def hex_digit_value_def)

lemma int16_hex4: "int16 (hex4 n) = n"
  by (simp add: hex4_def py_format_0x_def zfill_def int16_append int16_zeros int16_hex_of_nat)

lemma hex_of_nat_nonempty: "hex_of_nat n \<noteq> []"
  by (subst hex_of_nat.simps) simp

lemma hex4_nonempty: "hex4 n \<noteq> []"
  by (simp add: hex4_def py_format_0x_def zfill_def hex_of_nat_nonempty)

lemma lower_digits_hex: "\<forall>c \<in> set ''0123456789abcdef''. is_hex c"
  by (simp add: is_hex_def)

lemma hex4_is_hex: "\<forall>c \<in> set (hex4 n). is_hex c"
  using hex4_set [of n] lower_digits_hex by blast

lemma match_hex_token_at:
  assumes "ds \<noteq> []" and "\<forall>c \<in> set ds. is_hex c"
  shows "match_hex_token (CHR ''<'' # ds @ CHR ''>'' # r) = Some (ds, r)"
proof -
  have g: "\<not> is_hex (CHR ''>'')" by (simp add: is_hex_def)
  have "takeWhile is_hex (ds @ CHR ''>'' # r) = ds @ takeWhile is_hex (CHR ''>'' # r)"
    using assms(2) by (intro takeWhile_append2) simp
  then have t: "takeWhile is_hex (ds @ CHR ''>'' # r) = ds" using g by simp
  have "dropWhile is_hex (ds @ CHR ''>'' # r) = dropWhile is_hex (CHR ''>'' # r)"
    using assms(2) by (intro dropWhile_append2) simp
  then have d: "dropWhile is_hex (ds @ CHR ''>'' # r) = CHR ''>'' # r" using g by simp
  show ?thesis
    using assms(1) by (simp add: match_hex_token_def t d)
qed

lemma finditer_skip: "finditer m (length xs) (xs @ ys) = finditer m 0 ys"
proof (induction xs)
  case Nil
  show ?case by simp
next
  case (Cons x xs)
  then show ?case by simp
qed

lemma finditer_token:
  assumes "ds \<noteq> []" and "\<forall>c \<in> set ds. is_hex c"
  shows "finditer match_hex_token 0 (CHR ''<'' # ds @ CHR ''>'' # r) = ds # finditer match_hex_token 0 r"
proof -
  have "finditer match_hex_token 0 (CHR ''<'' # ds @ CHR ''>'' # r)
          = ds # finditer match_hex_token (length (ds @ CHR ''>'' # r) - length r) (ds @ CHR ''>'' # r)"
    by (simp add: match_hex_token_at [OF assms])
  also have "length (ds @ CHR ''>'' # r) - length r = length (ds @ [CHR ''>''])" by simp
  also have "ds @ CHR ''>'' # r = (ds @ [CHR ''>'']) @ r" by simp
  also have "finditer match_hex_token (length (ds @ [CHR ''>''])) ((ds @ [CHR ''>'']) @ r)
               = finditer match_hex_token 0 r"
    by (rule finditer_skip)
  finally show ?thesis by simp
qed

lemma parse_two_tokens:
  assumes "a \<noteq> []" and "\<forall>c \<in> set a. is_hex c" and "b \<noteq> []" and "\<forall>c \<in> set b. is_hex c"
  shows "parse_mapping (''<'' @ a @ ''><'' @ b @ ''>'') = [int16 a, int16 b]"
proof -
  have "finditer match_hex_token 0 (CHR ''<'' # a @ CHR ''>'' # (CHR ''<'' # b @ CHR ''>'' # []))
          = a # finditer match_hex_token 0 (CHR ''<'' # b @ CHR ''>'' # [])"
    using assms(1,2) by (rule finditer_token)
  also have "finditer match_hex_token 0 (CHR ''<'' # b @ CHR ''>'' # []) = b # finditer match_hex_token 0 []"
    using assms(3,4) by (rule finditer_token)
  finally show ?thesis by (simp add: parse_mapping_def)
qed

lemma low_surrogate_bound: "low_surrogate c < 65536"
proof -
  have "(c - 0x10000) mod 1024 < 1024" by simp
  then show ?thesis by (simp add: low_surrogate_def and_1023)
qed

lemma parse_bfchar_line:
  "parse_mapping (bfchar_line (g, c)) =
     (if c < 0x10000 then [g, c] else [g, high_surrogate c * 0x10000 + low_surrogate c])"
proof (cases "c < 0x10000")
  case True
  have "parse_mapping (''<'' @ hex4 g @ ''><'' @ hex4 c @ ''>'') = [int16 (hex4 g), int16 (hex4 c)]"
    by (intro parse_two_tokens hex4_nonempty hex4_is_hex)
  then show ?thesis using True by (simp add: bfchar_line_def int16_hex4)
next
  case False
  let ?hl = "hex4 (high_surrogate c) @ hex4 (low_surrogate c)"
  have ne: "?hl \<noteq> []" using hex4_nonempty by simp
  have hx: "\<forall>d \<in> set ?hl. is_hex d" using hex4_is_hex by auto
  have "parse_mapping (''<'' @ hex4 g @ ''><'' @ ?hl @ ''>'') = [int16 (hex4 g), int16 ?hl]"
    using hex4_nonempty hex4_is_hex ne hx by (rule parse_two_tokens)
  moreover have "int16 ?hl = high_surrogate c * 0x10000 + low_surrogate c"
    using hex4_length [OF low_surrogate_bound, of c] by (simp add: int16_append int16_hex4)
  ultimately show ?thesis using False by (simp add: bfchar_line_def int16_hex4)
qed

text \<open>
  C4. The glyph indices that receive a bfchar entry in the rebuilt CMap are exactly the
  used glyphs that the original map defines, each with its original code point. The
  text returned by \<open>make_tounicode\<close>, split at its newlines, is the preamble, then
  for every batch of at most 100 entries a line with the batch size and
  \<open>beginbfchar\<close>, one line per entry and the line \<open>endbfchar\<close>, then the
  trailer. The program's own token scanner reads the line of an entry back as the
  glyph index and the code point (as the surrogate pair for a code point above
  0xFFFF).
\<close>

theorem rebuilt_cmap_entries:
  "fst ` set (bfchar_entries cmap used) = dom cmap \<inter> set used
   \<and> (\<forall>e \<in> set (bfchar_entries cmap used). cmap (fst e) = Some (snd e))
   \<and> split_on nl (make_tounicode cmap used) =
       [''/CIDInit /ProcSet findresource begin'', ''12 dict begin'', ''begincmap'',
        ''/CIDSystemInfo <</Registry(Adobe)/Ordering(UCS)/Supplement 0>> def'',
        ''/CMapName /Adobe-Identity-UCS def'', ''/CMapType 2 def'', ''1 begincodespacerange'',
        ''<0000> <FFFF>'', ''endcodespacerange'']
       @ concat (map (\<lambda>b. [dec_of_nat (length b) @ '' beginbfchar''] @ map bfchar_line b @ [''endbfchar''])
                     (batched 100 (bfchar_entries cmap used)))
       @ [''endcmap'', ''CMapName currentdict /CMap defineresource pop'', ''end'', ''end'']
   \<and> (\<forall>e \<in> set (bfchar_entries cmap used).
         parse_mapping (bfchar_line e) =
           (if snd e < 0x10000 then [fst e, snd e]
            else [fst e, (0xD800 + drop_bit 10 (snd e - 0x10000)) * 0x10000
                          + (0xDC00 + ((snd e - 0x10000) AND 0x3FF))]))
   \<and> filter is_mapping_line (make_tounicode_lines cmap used) = map bfchar_line (bfchar_entries cmap used)
   \<and> make_tounicode_lines cmap used =
       [cmap_header] @ concat (map bfchar_block (batched 100 (bfchar_entries cmap used)))
         @ [''endcmap'', ''CMapName currentdict /CMap defineresource pop'', ''end'', ''end'']
   \<and> concat (batched 100 (bfchar_entries cmap used)) = bfchar_entries cmap used
   \<and> (\<forall>b \<in> set (batched 100 (bfchar_entries cmap used)). b \<noteq> [] \<and> length b \<le> 100)"
proof (intro conjI ballI)
  show "fst ` set (bfchar_entries cmap used) = dom cmap \<inter> set used" by (rule bfchar_entries_glyphs)
  show "cmap (fst e) = Some (snd e)" if "e \<in> set (bfchar_entries cmap used)" for e
    using that bfchar_entries_iff [of "fst e" "snd e" cmap used] by simp
  have "(\<lambda>b. [dec_of_nat (length b) @ '' beginbfchar''] @ map bfchar_line b @ [''endbfchar'']) = bfchar_block"
    by (rule ext) (simp add: bfchar_block_def)
  then show "split_on nl (make_tounicode cmap used) =
       [''/CIDInit /ProcSet findresource begin'', ''12 dict begin'', ''begincmap'',
        ''/CIDSystemInfo <</Registry(Adobe)/Ordering(UCS)/Supplement 0>> def'',
        ''/CMapName /Adobe-Identity-UCS def'', ''/CMapType 2 def'', ''1 begincodespacerange'',
        ''<0000> <FFFF>'', ''endcodespacerange'']
       @ concat (map (\<lambda>b. [dec_of_nat (length b) @ '' beginbfchar''] @ map bfchar_line b @ [''endbfchar''])
                     (batched 100 (bfchar_entries cmap used)))
       @ [''endcmap'', ''CMapName currentdict /CMap defineresource pop'', ''end'', ''end'']"
    using make_tounicode_text [of cmap used] by (simp only: header_lines_def)
  show "parse_mapping (bfchar_line e) =
           (if snd e < 0x10000 then [fst e, snd e]
            else [fst e, (0xD800 + drop_bit 10 (snd e - 0x10000)) * 0x10000
                          + (0xDC00 + ((snd e - 0x10000) AND 0x3FF))])"
    if "e \<in> set (bfchar_entries cmap used)" for e
    using parse_bfchar_line [of "fst e" "snd e"]
    by (simp only: prod.collapse high_surrogate_def low_surrogate_def)
  show "filter is_mapping_line (make_tounicode_lines cmap used) = map bfchar_line (bfchar_entries cmap used)"
    by (rule mapping_lines)
  show "make_tounicode_lines cmap used =
       [cmap_header] @ concat (map bfchar_block (batched 100 (bfchar_entries cmap used)))
         @ [''endcmap'', ''CMapName currentdict /CMap defineresource pop'', ''end'', ''end'']"
    by (simp add: make_tounicode_lines_def)
  show "concat (batched 100 (bfchar_entries cmap used)) = bfchar_entries cmap used"
    by (rule batched_concat) simp
  show "b \<noteq> []" if "b \<in> set (batched 100 (bfchar_entries cmap used))" for b
    using batched_chunks [OF that] by simp
  show "length b \<le> 100" if "b \<in> set (batched 100 (bfchar_entries cmap used))" for b
    using batched_chunks [OF that] by simp
qed

theorem rebuilt_cmap_entries_witness:
  "bfchar_entries [5 \<mapsto> 0x41, 7 \<mapsto> 0x1F600, 9 \<mapsto> 0x42] [5, 6, 7] = [(5, 0x41), (7, 0x1F600)]
   \<and> dom [5 \<mapsto> 0x41, 7 \<mapsto> 0x1F600, 9 \<mapsto> (0x42::nat)] \<inter> set [5, 6, 7] = {5, 7 :: nat}
   \<and> split_on nl (make_tounicode [5 \<mapsto> 0x41, 7 \<mapsto> 0x1F600, 9 \<mapsto> 0x42] [5, 6, 7]) =
       [''/CIDInit /ProcSet findresource begin'', ''12 dict begin'', ''begincmap'',
        ''/CIDSystemInfo <</Registry(Adobe)/Ordering(UCS)/Supplement 0>> def'',
        ''/CMapName /Adobe-Identity-UCS def'', ''/CMapType 2 def'', ''1 begincodespacerange'',
        ''<0000> <FFFF>'', ''endcodespacerange'',
        ''2 beginbfchar'', ''<0005><0041>'', ''<0007><d83dde00>'', ''endbfchar'',
        ''endcmap'', ''CMapName currentdict /CMap defineresource pop'', ''end'', ''end'']
   \<and> parse_mapping ''<0005><0041>'' = [5, 0x41]
   \<and> parse_mapping ''<0007><d83dde00>'' = [7, 0xD83D * 0x10000 + 0xDE00]
   \<and> filter is_mapping_line (make_tounicode_lines [5 \<mapsto> 0x41, 7 \<mapsto> 0x1F600, 9 \<mapsto> 0x42] [5, 6, 7])
       = [''<0005><0041>'', ''<0007><d83dde00>'']
   \<and> batched 100 [(5::nat, 0x41::nat), (7, 0x1F600)] = [[(5, 0x41), (7, 0x1F600)]]"
  using rebuilt_cmap_entries [of "[5 \<mapsto> 0x41, 7 \<mapsto> 0x1F600, 9 \<mapsto> 0x42]" "[5, 6, 7]"]
  by (simp add: cmap_eval batched.simps is_mapping_line_def bfchar_block_def cmap_header_def py_join_def)

section \<open>CMap reconstructor: a second pass\<close>

lemma first_rebuild_text:
  "make_tounicode [5 \<mapsto> 0x1F600] [5] =
     ''/CIDInit /ProcSet findresource begin'' @ [nl] @ ''12 dict begin'' @ [nl] @ ''begincmap'' @ [nl]
     @ ''/CIDSystemInfo <</Registry(Adobe)/Ordering(UCS)/Supplement 0>> def'' @ [nl]
     @ ''/CMapName /Adobe-Identity-UCS def'' @ [nl] @ ''/CMapType 2 def'' @ [nl]
     @ ''1 begincodespacerange'' @ [nl] @ ''<0000> <FFFF>'' @ [nl] @ ''endcodespacerange'' @ [nl]
     @ ''1 beginbfchar'' @ [nl] @ ''<0005><d83dde00>'' @ [nl] @ ''endbfchar'' @ [nl]
     @ ''endcmap'' @ [nl] @ ''CMapName currentdict /CMap defineresource pop'' @ [nl] @ ''end'' @ [nl] @ ''end''"
  by (simp add: make_tounicode_def make_tounicode_lines_def batched.simps bfchar_block_def
        cmap_header_def py_join_def cmap_eval)

lemmas scan_eval = nl_def match_block_def is_space_def is_hex_def match_hex_token_def

lemma first_rebuild_bfrange:
  "finditer (match_block ''beginbfrange'' ''endbfrange'') 0 (make_tounicode [5 \<mapsto> 0x1F600] [5]) = []"
  unfolding first_rebuild_text by (simp add: scan_eval)

lemma first_rebuild_bfchar:
  "finditer (match_block ''beginbfchar'' ''endbfchar'') 0 (make_tounicode [5 \<mapsto> 0x1F600] [5])
     = [''<0005><d83dde00>\<newline>'']"
  unfolding first_rebuild_text by (simp add: scan_eval)

lemma first_rebuild_tokens: "parse_mapping ''<0005><d83dde00>\<newline>'' = [5, 0xD83DDE00]"
  by (simp add: parse_mapping_def scan_eval int16_def hex_digit_value_def)

lemma first_rebuild_parsed:
  "parse_tounicode_cmap nfd (make_tounicode [5 \<mapsto> 0x1F600] [5]) = Inr [5 \<mapsto> 0xD83DDE00]"
  by (simp add: parse_tounicode_cmap_def first_rebuild_bfrange first_rebuild_bfchar first_rebuild_tokens
        batched.simps bfchar_step_def apply_normalization_def)

lemma stored_stream_parsed:
  "parse_tounicode_cmap nfd '' beginbfchar\<newline><0005> <1F600>\<newline>endbfchar'' = Inr [5 \<mapsto> 0x1F600]"
proof -
  have a: "finditer (match_block ''beginbfrange'' ''endbfrange'') 0 '' beginbfchar\<newline><0005> <1F600>\<newline>endbfchar'' = []"
    by (simp add: scan_eval)
  have b: "finditer (match_block ''beginbfchar'' ''endbfchar'') 0 '' beginbfchar\<newline><0005> <1F600>\<newline>endbfchar''
             = [''<0005> <1F600>\<newline>'']"
    by (simp add: scan_eval)
  have c: "parse_mapping ''<0005> <1F600>\<newline>'' = [5, 0x1F600]"
    by (simp add: parse_mapping_def scan_eval int16_def hex_digit_value_def)
  show ?thesis
    unfolding parse_tounicode_cmap_def a b
    by (simp add: c batched.simps bfchar_step_def apply_normalization_def)
qed

text \<open>
  C7. Reconstruction is claimed to be idempotent. The map that sends glyph 5 to
  U+1F600 is what the parser returns for a stored stream with the entry
  \<open><0005> <1F600>\<close>. Rebuilding it writes the surrogate pair D83D DE00; parsing that output reads
  the eight digits as the single number 0xD83DDE00, and the second rebuild writes a
  different entry for the same glyph.
\<close>

theorem reconstruction_not_idempotent:
  "parse_tounicode_cmap nfd '' beginbfchar\<newline><0005> <1F600>\<newline>endbfchar'' = Inr [5 \<mapsto> 0x1F600]
   \<and> bfchar_entries [5 \<mapsto> 0x1F600] [5] = [(5, 0x1F600)]
   \<and> filter is_mapping_line (make_tounicode_lines [5 \<mapsto> 0x1F600] [5]) = [''<0005><d83dde00>'']
   \<and> parse_tounicode_cmap nfd (make_tounicode [5 \<mapsto> 0x1F600] [5]) = Inr [5 \<mapsto> 0xD83DDE00]
   \<and> bfchar_entries [5 \<mapsto> 0xD83DDE00] [5] = [(5, 0xD83DDE00)]
   \<and> filter is_mapping_line (make_tounicode_lines [5 \<mapsto> 0xD83DDE00] [5]) = [''<0005><36e737de00>'']
   \<and> reconstruct nfd (make_tounicode [5 \<mapsto> 0x1F600] [5]) [5] \<noteq> Inr (make_tounicode [5 \<mapsto> 0x1F600] [5])"
proof (intro conjI)
  show "parse_tounicode_cmap nfd '' beginbfchar\<newline><0005> <1F600>\<newline>endbfchar'' = Inr [5 \<mapsto> 0x1F600]"
    by (rule stored_stream_parsed)
  show "bfchar_entries [5 \<mapsto> 0x1F600] [5] = [(5, 0x1F600)]" by (simp add: bfchar_entries_def)
  show "bfchar_entries [5 \<mapsto> 0xD83DDE00] [5] = [(5, 0xD83DDE00)]" by (simp add: bfchar_entries_def)
  show "parse_tounicode_cmap nfd (make_tounicode [5 \<mapsto> 0x1F600] [5]) = Inr [5 \<mapsto> 0xD83DDE00]"
    by (rule first_rebuild_parsed)
  show a: "filter is_mapping_line (make_tounicode_lines [5 \<mapsto> 0x1F600] [5]) = [''<0005><d83dde00>'']"
    unfolding mapping_lines by (simp add: cmap_eval)
  show b: "filter is_mapping_line (make_tounicode_lines [5 \<mapsto> 0xD83DDE00] [5]) = [''<0005><36e737de00>'']"
    unfolding mapping_lines by (simp add: cmap_eval)
  have "make_tounicode_lines [5 \<mapsto> 0xD83DDE00] [5] \<noteq> make_tounicode_lines [5 \<mapsto> 0x1F600] [5]"
    using a b by auto
  then have "make_tounicode [5 \<mapsto> 0xD83DDE00] [5] \<noteq> make_tounicode [5 \<mapsto> 0x1F600] [5]"
    by (simp add: make_tounicode_def make_tounicode_lines_def batched.simps bfchar_block_def
          cmap_header_def py_join_def cmap_eval)
  then show "reconstruct nfd (make_tounicode [5 \<mapsto> 0x1F600] [5]) [5] \<noteq> Inr (make_tounicode [5 \<mapsto> 0x1F600] [5])"
    by (simp add: reconstruct_def first_rebuild_parsed)
qed

section \<open>Unit collector: the output-language selector\<close>

lemma render_paragraph_not_ar:
  "lang_out a \<noteq> ''ar'' \<Longrightarrow> lang_out b \<noteq> ''ar'' \<Longrightarrow> render_paragraph_to_char a p = render_paragraph_to_char b p"
  by (simp add: render_paragraph_to_char_def)

lemma collector_cong:
  assumes "\<And>p. render_paragraph_to_char a p = render_paragraph_to_char b p"
    and "skip_form_render t = skip_form_render u"
  shows "create_render_units_for_page a page t = create_render_units_for_page b page u"
proof -
  have "render_paragraph_to_char a = render_paragraph_to_char b" using assms(1) by (rule ext)
  then show ?thesis using assms(2) by (simp add: create_render_units_for_page_def)
qed

text \<open>
  C9 (as amended). The units the collector builds for a page do not depend on the
  output-language selector as long as it is not \<open>ar\<close>, and never on the selector of
  the configuration passed to the call; when the creator's selector is \<open>ar\<close>, the
  character sequence of every paragraph is the reverse of the one built otherwise.
\<close>

theorem collector_selector_dependence:
  "(lang_out a \<noteq> ''ar'' \<and> lang_out b \<noteq> ''ar'' \<and> skip_form_render t = skip_form_render u
      \<longrightarrow> create_render_units_for_page a page t = create_render_units_for_page b page u)
   \<and> (skip_form_render t = skip_form_render u
      \<longrightarrow> create_render_units_for_page a page t = create_render_units_for_page a page u)
   \<and> (lang_out a = ''ar'' \<and> lang_out b \<noteq> ''ar''
      \<longrightarrow> render_paragraph_to_char a p = rev (render_paragraph_to_char b p))"
proof (intro conjI impI)
  assume "lang_out a \<noteq> ''ar'' \<and> lang_out b \<noteq> ''ar'' \<and> skip_form_render t = skip_form_render u"
  then show "create_render_units_for_page a page t = create_render_units_for_page b page u"
    by (intro collector_cong render_paragraph_not_ar) simp_all
next
  assume "skip_form_render t = skip_form_render u"
  then show "create_render_units_for_page a page t = create_render_units_for_page a page u"
    by (intro collector_cong) simp_all
next
  assume "lang_out a = ''ar'' \<and> lang_out b \<noteq> ''ar''"
  then show "render_paragraph_to_char a p = rev (render_paragraph_to_char b p)"
    by (simp add: render_paragraph_to_char_def)
qed


lemma example_chars_differ: "example_char \<noteq> example_char_b"
  by (simp add: example_char_def example_char_b_def)

lemmas collector_eval =
  create_render_units_for_page_def render_paragraph_to_char_def composition_chars_def paragraph_forms_def
  example_page_def example_paragraph_def example_config_def new_character_unit_def new_form_unit_def
  order_or_max_def getattr_or_def

lemma example_char_order: "char_render_order example_char = NoAttr" "char_render_order example_char_b = NoAttr"
  by (simp_all add: example_char_def example_char_b_def)

theorem collector_selector_dependence_witness:
  "create_render_units_for_page (example_config ''fr'') example_page (example_config ''fr'')
     = create_render_units_for_page (example_config ''en'') example_page (example_config ''en'')
   \<and> create_render_units_for_page (example_config ''en'') example_page (example_config ''ar'')
     = create_render_units_for_page (example_config ''en'') example_page (example_config ''en'')
   \<and> render_paragraph_to_char (example_config ''ar'') example_paragraph
     = rev (render_paragraph_to_char (example_config ''en'') example_paragraph)
   \<and> render_paragraph_to_char (example_config ''en'') example_paragraph = [example_char, example_char_b]"
  using collector_selector_dependence [of "example_config ''fr''" "example_config ''en''"
          "example_config ''fr''" "example_config ''en''" example_page example_paragraph]
        collector_selector_dependence [of "example_config ''ar''" "example_config ''en''"
          "example_config ''ar''" "example_config ''en''" example_page example_paragraph]
        collector_selector_dependence [of "example_config ''en''" "example_config ''en''"
          "example_config ''ar''" "example_config ''en''" example_page example_paragraph]
  by (simp add: example_config_def) (simp add: collector_eval)

text \<open>
  With the selector \<open>ar\<close> the same page yields the two characters of its paragraph in
  the opposite order, each with the other's sub-order.
\<close>

theorem collector_selector_counterexample:
  "create_render_units_for_page (example_config ''ar'') example_page (example_config ''ar'')
     = [CharacterRenderUnit example_char_b 100 0, CharacterRenderUnit example_char 100 1]
   \<and> create_render_units_for_page (example_config ''en'') example_page (example_config ''en'')
     = [CharacterRenderUnit example_char 100 0, CharacterRenderUnit example_char_b 100 1]
   \<and> create_render_units_for_page (example_config ''ar'') example_page (example_config ''ar'')
     \<noteq> create_render_units_for_page (example_config ''en'') example_page (example_config ''en'')"
  using example_chars_differ by (simp add: collector_eval example_char_order)

section \<open>Stream assembler: routing\<close>

lemma append_routed_page:
  "routes_to_page xs u \<Longrightarrow> append_routed (unit_xobj_id u) bytes (p, xs) = (p @ bytes, xs)"
  by (simp add: routes_to_page_def append_routed_def split: option.splits)

lemma append_routed_xobj:
  "unit_xobj_id u = Some j \<Longrightarrow> xs j = Some b \<Longrightarrow>
     append_routed (unit_xobj_id u) bytes (p, xs) = (p, xs(j \<mapsto> b @ bytes))"
  by (simp add: append_routed_def)

lemma routes_to_page_upd: "xs j = Some b \<Longrightarrow> routes_to_page (xs(j \<mapsto> b')) = routes_to_page xs"
  by (rule ext) (simp add: routes_to_page_def split: option.splits)

lemma routed_fold:
  "foldl (\<lambda>bufs u. append_routed (unit_xobj_id u) (emit u) bufs) (p, xs) us =
     (p @ concat (map emit (filter (routes_to_page xs) us)),
      \<lambda>i. case xs i of
             None \<Rightarrow> None
           | Some b \<Rightarrow> Some (b @ concat (map emit (filter (\<lambda>u. unit_xobj_id u = Some i) us))))"
proof (induction us arbitrary: p xs)
  case Nil
  show ?case by (simp add: fun_eq_iff split: option.splits)
next
  case (Cons u us)
  show ?case
  proof (cases "routes_to_page xs u")
    case True
    then have no: "unit_xobj_id u = Some i \<Longrightarrow> xs i = None" for i
      by (simp add: routes_to_page_def)
    have "(\<lambda>i. case xs i of None \<Rightarrow> None
                | Some b \<Rightarrow> Some (b @ concat (map emit (filter (\<lambda>u. unit_xobj_id u = Some i) (u # us)))))
          = (\<lambda>i. case xs i of None \<Rightarrow> None
                | Some b \<Rightarrow> Some (b @ concat (map emit (filter (\<lambda>u. unit_xobj_id u = Some i) us))))"
      by (rule ext) (auto split: option.splits dest: no)
    then show ?thesis
      using True by (simp add: append_routed_page Cons.IH)
  next
    case False
    then obtain j b where j: "unit_xobj_id u = Some j" and b: "xs j = Some b"
      by (auto simp: routes_to_page_def split: option.splits)
    let ?f = "\<lambda>bufs u. append_routed (unit_xobj_id u) (emit u) bufs"
    let ?xs' = "xs(j \<mapsto> b @ emit u)"
    have step: "append_routed (unit_xobj_id u) (emit u) (p, xs) = (p, ?xs')"
      using j b by (rule append_routed_xobj)
    have rp: "routes_to_page ?xs' = routes_to_page xs"
      using b by (rule routes_to_page_upd)
    have maps: "(\<lambda>i. case ?xs' i of None \<Rightarrow> None
                | Some c \<Rightarrow> Some (c @ concat (map emit (filter (\<lambda>u. unit_xobj_id u = Some i) us))))
          = (\<lambda>i. case xs i of None \<Rightarrow> None
                | Some c \<Rightarrow> Some (c @ concat (map emit (filter (\<lambda>u. unit_xobj_id u = Some i) (u # us)))))"
      by (rule ext) (simp add: j b split: option.splits)
    have "foldl ?f (p, xs) (u # us) = foldl ?f (p, ?xs') us"
      by (simp only: foldl_Cons step)
    also have "\<dots> = (p @ concat (map emit (filter (routes_to_page ?xs') us)),
                    \<lambda>i. case ?xs' i of None \<Rightarrow> None
                       | Some c \<Rightarrow> Some (c @ concat (map emit (filter (\<lambda>u. unit_xobj_id u = Some i) us))))"
      by (rule Cons.IH)
    also have "\<dots> = (p @ concat (map emit (filter (routes_to_page xs) us)),
                    \<lambda>i. case xs i of None \<Rightarrow> None
                       | Some c \<Rightarrow> Some (c @ concat (map emit (filter (\<lambda>u. unit_xobj_id u = Some i) (u # us)))))"
      by (simp only: rp maps)
    also have "filter (routes_to_page xs) us = filter (routes_to_page xs) (u # us)"
      using False by simp
    finally show ?thesis .
  qed
qed

lemma dom_initial_xobj_draw_ops_aux:
  "dom (foldl (\<lambda>m x. m(xobj_id x \<mapsto> z (base_operations x))) m0 xobjs) = dom m0 \<union> xobj_id ` set xobjs"
  by (induction xobjs arbitrary: m0) auto

lemma dom_initial_xobj_draw_ops: "dom (initial_xobj_draw_ops z xobjs) = xobj_id ` set xobjs"
  by (simp add: initial_xobj_draw_ops_def dom_initial_xobj_draw_ops_aux)

text \<open>
  C10. The stream assembler routes every unit without a failing lookup: in sort
  order, the units without an XObject id and the units whose id is not a key of the
  per-XObject buffers are appended to the page buffer, each XObject buffer receives
  exactly the units that carry its id, and no buffer is created or lost. The keys of
  the buffers built for a page are the ids of the page's XObjects.
\<close>

theorem routing_falls_back_to_page:
  "render_units_to_stream matrix_to_bytes units ctx page_op xobj_draw_ops =
     (page_op @ concat (map (render matrix_to_bytes ctx)
                            (filter (routes_to_page xobj_draw_ops) (sort_key get_sort_key units))),
      \<lambda>i. case xobj_draw_ops i of
             None \<Rightarrow> None
           | Some b \<Rightarrow> Some (b @ concat (map (render matrix_to_bytes ctx)
                                            (filter (\<lambda>u. unit_xobj_id u = Some i) (sort_key get_sort_key units)))))
   \<and> dom (initial_xobj_draw_ops zstd_decompress xobjs) = xobj_id ` set xobjs
   \<and> routes_to_page (initial_xobj_draw_ops zstd_decompress xobjs) u
       = (case unit_xobj_id u of None \<Rightarrow> True | Some i \<Rightarrow> i \<notin> xobj_id ` set xobjs)"
proof (intro conjI)
  show "render_units_to_stream matrix_to_bytes units ctx page_op xobj_draw_ops =
     (page_op @ concat (map (render matrix_to_bytes ctx)
                            (filter (routes_to_page xobj_draw_ops) (sort_key get_sort_key units))),
      \<lambda>i. case xobj_draw_ops i of
             None \<Rightarrow> None
           | Some b \<Rightarrow> Some (b @ concat (map (render matrix_to_bytes ctx)
                                            (filter (\<lambda>u. unit_xobj_id u = Some i) (sort_key get_sort_key units)))))"
    unfolding render_units_to_stream_def by (rule routed_fold)
  show d: "dom (initial_xobj_draw_ops zstd_decompress xobjs) = xobj_id ` set xobjs"
    by (rule dom_initial_xobj_draw_ops)
  show "routes_to_page (initial_xobj_draw_ops zstd_decompress xobjs) u
       = (case unit_xobj_id u of None \<Rightarrow> True | Some i \<Rightarrow> i \<notin> xobj_id ` set xobjs)"
    unfolding d [symmetric] by (simp add: routes_to_page_def domIff split: option.splits)
qed


lemma routing_units:
  "create_render_units_for_page (example_config ''en'') routing_page (example_config ''en'')
     = [CharacterRenderUnit example_char 100 0,
        CharacterRenderUnit (example_char\<lparr> char_xobj_id := Some 7 \<rparr>) 100 1,
        CharacterRenderUnit (example_char\<lparr> char_xobj_id := Some 9 \<rparr>) 100 2]"
  by (simp add: create_render_units_for_page_def routing_page_def example_config_def
        new_character_unit_def order_or_max_def getattr_or_def example_char_def)

lemma routing_context:
  "page_render_context False {} (\<lambda>r. {}) routing_page
     = \<lparr> available_font_list = {}, page_encoding_length_map = [''F1'' \<mapsto> 2],
         all_encoding_length_map = [''F1'' \<mapsto> 2], xobj_available_fonts = [7 \<mapsto> {}],
         xobj_encoding_length_map = [7 \<mapsto> [''F1'' \<mapsto> 2]], check_font_exists = False \<rparr>"
  by (simp add: page_render_context_def font_map_def routing_page_def example_xobject_def Let_def)

lemma routing_render:
  "character_render \<lparr> available_font_list = {}, page_encoding_length_map = [''F1'' \<mapsto> 2],
         all_encoding_length_map = [''F1'' \<mapsto> 2], xobj_available_fonts = [7 \<mapsto> {}],
         xobj_encoding_length_map = [7 \<mapsto> [''F1'' \<mapsto> 2]], check_font_exists = False \<rparr>
       (example_char\<lparr> char_xobj_id := x \<rparr>)
     = ''q BT /F1 12.000000 Tf 1 0 0 1 100.000000 700.000000 Tm <0041> Tj ET Q \<newline>''"
  if "x = None \<or> x = Some 7 \<or> x = Some 9"
  using that by (elim disjE) (simp_all add: example_eval)

lemma routing_buffers:
  "initial_xobj_draw_ops (\<lambda>s. s) (pdf_xobject routing_page) = [7 \<mapsto> ''X'']"
  by (simp add: initial_xobj_draw_ops_def routing_page_def example_xobject_def)

lemma routing_prefix:
  "'' 1 0 0 1 '' @ fmt_f (py_neg (box_x (cropbox routing_page))) @ '' ''
     @ fmt_f (py_neg (box_y (cropbox routing_page))) @ '' cm '' = '' 1 0 0 1 -0.000000 -0.000000 cm ''"
  by (simp add: routing_page_def py_neg_def fmt_f_int dec_of_nat.simps digit_char_def)

lemma routing_result:
  "update_page_content_stream (example_config ''en'') (\<lambda>m. []) (\<lambda>s. s) False {} (\<lambda>r. {})
          routing_page (example_config ''en'') False
     = ('' 1 0 0 1 -0.000000 -0.000000 cm  \<newline>''
          @ ''q BT /F1 12.000000 Tf 1 0 0 1 100.000000 700.000000 Tm <0041> Tj ET Q \<newline>''
          @ ''q BT /F1 12.000000 Tf 1 0 0 1 100.000000 700.000000 Tm <0041> Tj ET Q \<newline>'',
        [7 \<mapsto> ''X'' @ ''q BT /F1 12.000000 Tf 1 0 0 1 100.000000 700.000000 Tm <0041> Tj ET Q \<newline>''])"
proof -
  have r: "character_render \<lparr> available_font_list = {}, page_encoding_length_map = [''F1'' \<mapsto> 2],
         all_encoding_length_map = [''F1'' \<mapsto> 2], xobj_available_fonts = [7 \<mapsto> {}],
         xobj_encoding_length_map = [7 \<mapsto> [''F1'' \<mapsto> 2]], check_font_exists = False \<rparr> example_char
     = ''q BT /F1 12.000000 Tf 1 0 0 1 100.000000 700.000000 Tm <0041> Tj ET Q \<newline>''"
    using routing_render [of None] by (simp add: example_char_def)
  have x: "char_xobj_id example_char = None" by (simp add: example_char_def)
  show ?thesis
    unfolding update_page_content_stream_def Let_def routing_units routing_context routing_buffers routing_prefix
    by (simp add: render_units_to_stream_def append_routed_def routing_render r x nl_def)
qed

theorem routing_falls_back_to_page_witness:
  "fst (update_page_content_stream (example_config ''en'') (\<lambda>m. []) (\<lambda>s. s) False {} (\<lambda>r. {})
          routing_page (example_config ''en'') False)
     = '' 1 0 0 1 -0.000000 -0.000000 cm  \<newline>''
       @ ''q BT /F1 12.000000 Tf 1 0 0 1 100.000000 700.000000 Tm <0041> Tj ET Q \<newline>''
       @ ''q BT /F1 12.000000 Tf 1 0 0 1 100.000000 700.000000 Tm <0041> Tj ET Q \<newline>''
   \<and> snd (update_page_content_stream (example_config ''en'') (\<lambda>m. []) (\<lambda>s. s) False {} (\<lambda>r. {})
          routing_page (example_config ''en'') False) 7
     = Some (''X'' @ ''q BT /F1 12.000000 Tf 1 0 0 1 100.000000 700.000000 Tm <0041> Tj ET Q \<newline>'')
   \<and> snd (update_page_content_stream (example_config ''en'') (\<lambda>m. []) (\<lambda>s. s) False {} (\<lambda>r. {})
          routing_page (example_config ''en'') False) 9 = None
   \<and> dom (initial_xobj_draw_ops (\<lambda>s. s) (pdf_xobject routing_page)) = {7}
   \<and> routes_to_page (initial_xobj_draw_ops (\<lambda>s. s) (pdf_xobject routing_page))
         (CharacterRenderUnit (example_char\<lparr> char_xobj_id := Some 9 \<rparr>) 100 2)"
  using routing_falls_back_to_page [of "\<lambda>m. []"
          "create_render_units_for_page (example_config ''en'') routing_page (example_config ''en'')"
          "page_render_context False {} (\<lambda>r. {}) routing_page"
          "'' 1 0 0 1 -0.000000 -0.000000 cm  \<newline>''"
          "initial_xobj_draw_ops (\<lambda>s. s) (pdf_xobject routing_page)"
          "\<lambda>s. s" "pdf_xobject routing_page"
          "CharacterRenderUnit (example_char\<lparr> char_xobj_id := Some 9 \<rparr>) 100 2"]
  by (simp add: routing_result routing_buffers routes_to_page_def)

section \<open>Isolated post-processor: fallback\<close>

text \<open>
  C6. When the output file of the font-subsetting child does not exist after the wait,
  the document handed in is returned as it is. When the output file of the save child
  does not exist after the wait, the document is saved in the same process without the
  clean pass: either the output path then holds that serialisation and \<open>False\<close> is
  returned, or the error of that save is raised; the call never ends without an
  error and without the output file.
\<close>

theorem isolated_fallback:
  "(pdf_save lib pdf (get_working_file_path lib (''si_'' @ tag @ ''.pdf'')) default_save_options fs = Inr fs1
      \<and> subset_child (get_working_file_path lib (''si_'' @ tag @ ''.pdf''))
            (get_working_file_path lib (''so_'' @ tag @ ''.pdf'')) fs1
            (get_working_file_path lib (''so_'' @ tag @ ''.pdf'')) = None
      \<longrightarrow> fst (subset_fonts_in_subprocess lib subset_child pdf tag fs) = Inr pdf)
   \<and> (pdf_save lib pdf (get_working_file_path lib (''vi_'' @ tag @ ''.pdf'')) default_save_options fs = Inr fs1
      \<and> save_child (get_working_file_path lib (''vi_'' @ tag @ ''.pdf''))
            (get_working_file_path lib (''vo_'' @ tag @ ''.pdf'')) opts fs1
            (get_working_file_path lib (''vo_'' @ tag @ ''.pdf'')) = None
      \<longrightarrow> (case save_pdf_with_timeout lib save_child pdf output_path opts tag fs of
             (Inr adopted, fs') \<Rightarrow>
               \<not> adopted \<and> (case serialize lib pdf (opts\<lparr> clean := False \<rparr>) of
                                Inr bytes \<Rightarrow> fs' output_path = Some bytes
                              | Inl e \<Rightarrow> False)
           | (Inl e, fs') \<Rightarrow> serialize lib pdf (opts\<lparr> clean := False \<rparr>) = Inl e))"
  by (auto simp: subset_fonts_in_subprocess_def save_pdf_with_timeout_def pdf_save_def Let_def
           split: sum.splits option.splits)

theorem isolated_fallback_witness:
  "fst (subset_fonts_in_subprocess example_library (\<lambda>t_in t_out fs. fs) ''DOC'' ''mono'' Map.empty) = Inr ''DOC''
   \<and> save_pdf_with_timeout example_library (\<lambda>t_in t_out opts fs. fs) ''DOC'' ''out.pdf''
        \<lparr> garbage = 1, deflate = True, clean = True \<rparr> ''mono'' Map.empty
      = (Inr False, [''/tmp/vi_mono.pdf'' \<mapsto> ''DOC#plain'', ''out.pdf'' \<mapsto> ''DOC#plain''])"
  using isolated_fallback [of example_library "''DOC''" "''mono''" Map.empty
          "[''/tmp/si_mono.pdf'' \<mapsto> ''DOC#plain'']" "\<lambda>t_in t_out fs. fs"]
        isolated_fallback [of example_library "''DOC''" "''mono''" Map.empty
          "[''/tmp/vi_mono.pdf'' \<mapsto> ''DOC#plain'']" "\<lambda>t_in t_out fs. fs"
          "\<lambda>t_in t_out opts fs. fs" "\<lparr> garbage = 1, deflate = True, clean = True \<rparr>" "''out.pdf''"]
  by (simp add: example_library_def subset_fonts_in_subprocess_def save_pdf_with_timeout_def pdf_save_def
        default_save_options_def Let_def)

section \<open>Write orchestrator: the single retry\<close>






end
